theory Spec2Isabelle
  imports Complex_Main "HOL-Library.Word"
begin

section \<open>Edge routing components\<close>

text \<open>
  The edge components (\<open>OrthogonalConnectionEdge\<close>, \<open>OrthogonalVpnEdge\<close>,
  \<open>OrthogonalTrunkEdge\<close>, \<open>OrthogonalSanEdge\<close>) receive the edge identifier and the two
  anchor points from the drawing library and build an SVG path string out of the commands
  \<open>M x y\<close>, \<open>H x\<close> and \<open>V y\<close>. A JavaScript string is a sequence of UTF-16 code units;
  a coordinate is a JavaScript number, modelled as a real.
\<close>

type_synonym jsstring = "16 word list"

definition charCodeAt0 :: "16 word \<Rightarrow> nat" where
  "charCodeAt0 char = unat char"

text \<open>
  \<open>id.split('').reduce((sum, char) => sum + char.charCodeAt(0), 0)\<close> followed by
  \<open>idSum % 3\<close>. The surrounding \<open>try\<close> has nothing to catch when \<open>id\<close> is a string.
  The sum is a natural number far below \<open>2^53\<close>, where JavaScript's numbers are exact,
  and \<open>%\<close> on it is \<open>mod\<close>. The same lines open every one of the routing components.
\<close>

definition idSum :: "jsstring \<Rightarrow> nat" where
  "idSum ident = foldl (\<lambda>sum char. sum + charCodeAt0 char) 0 ident"

definition edgeNumberOf :: "jsstring \<Rightarrow> nat" where
  "edgeNumberOf ident = idSum ident mod 3"

definition js :: "string \<Rightarrow> jsstring" where
  "js s = map (\<lambda>c. of_nat (of_char c)) s"

datatype cmd = M real real | H real | V real

type_synonym path = "cmd list"

text \<open>
  The points an SVG path visits: \<open>M\<close> moves to a point, \<open>H\<close> keeps the current y,
  \<open>V\<close> keeps the current x.
\<close>

fun walk :: "real \<times> real \<Rightarrow> path \<Rightarrow> (real \<times> real) list" where
  "walk p [] = []"
| "walk (x, y) (M a b # cs) = (a, b) # walk (a, b) cs"
| "walk (x, y) (H a # cs) = (a, y) # walk (a, y) cs"
| "walk (x, y) (V b # cs) = (x, b) # walk (x, b) cs"

definition endpoints :: "path \<Rightarrow> (real \<times> real) list" where
  "endpoints cs = walk (0, 0) cs"

definition differsInExactlyOne :: "real \<times> real \<Rightarrow> real \<times> real \<Rightarrow> bool" where
  "differsInExactlyOne p q = ((fst p \<noteq> fst q) \<noteq> (snd p \<noteq> snd q))"

definition notDiagonal :: "real \<times> real \<Rightarrow> real \<times> real \<Rightarrow> bool" where
  "notDiagonal p q = (fst p = fst q \<or> snd p = snd q)"

definition edgePath :: "path \<times> real \<times> real \<Rightarrow> path" where
  "edgePath r = fst r"

subsection \<open>Standard connections: OrthogonalConnectionEdge\<close>

definition OrthogonalConnectionEdge ::
  "jsstring \<Rightarrow> real \<Rightarrow> real \<Rightarrow> real \<Rightarrow> real \<Rightarrow> path \<times> real \<times> real" where
  "OrthogonalConnectionEdge ident sourceX sourceY targetX targetY =
    (let edgeNumber = real (edgeNumberOf ident);
         goingRight = (targetX > sourceX);
         nodeWidth = 150;
         nodeHeight = 70;
         nodeClearance = 10;
         safeHorizontalOffset = max (nodeWidth / 2 + nodeClearance) 30;
         safeVerticalOffset = max (nodeHeight / 2 + nodeClearance) 25;
         edgeStaggerOffset = edgeNumber * 10;
         horizontalOffset = safeHorizontalOffset + edgeStaggerOffset;
         path =
           (if \<bar>sourceY - targetY\<bar> < safeVerticalOffset then
              [M sourceX sourceY, H targetX]
            else if \<bar>sourceX - targetX\<bar> < safeHorizontalOffset then
              [M sourceX sourceY, V targetY]
            else
              (let midX = (if goingRight then sourceX + horizontalOffset
                           else sourceX - horizontalOffset)
               in [M sourceX sourceY, H midX, V targetY, H targetX]));
         labelPosX = (sourceX + targetX) / 2;
         labelPosY = (sourceY + targetY) / 2 - 10
     in (path, labelPosX, labelPosY))"

subsection \<open>VPN connections: OrthogonalVpnEdge\<close>

text \<open>
  \<open>id.toLowerCase().includes('gateway')\<close>. The lower-casing is modelled on the code
  units of the ASCII capitals, the only ones that lower-case to a letter of the word
  searched for.
\<close>

definition toLowerCase :: "jsstring \<Rightarrow> jsstring" where
  "toLowerCase s = map (\<lambda>c. if 65 \<le> unat c \<and> unat c \<le> 90 then c + 32 else c) s"

fun startsWith :: "'a list \<Rightarrow> 'a list \<Rightarrow> bool" where
  "startsWith s [] = True"
| "startsWith [] (p # ps) = False"
| "startsWith (c # cs) (p # ps) = (c = p \<and> startsWith cs ps)"

fun includes_str :: "jsstring \<Rightarrow> jsstring \<Rightarrow> bool" where
  "includes_str [] pat = (pat = [])"
| "includes_str (c # cs) pat = (startsWith (c # cs) pat \<or> includes_str cs pat)"

definition OrthogonalVpnEdge ::
  "jsstring \<Rightarrow> real \<Rightarrow> real \<Rightarrow> real \<Rightarrow> real \<Rightarrow> path \<times> real \<times> real" where
  "OrthogonalVpnEdge ident sourceX sourceY targetX targetY =
    (let edgeNumber = edgeNumberOf ident;
         nodeWidth = 150;
         nodeHeight = 70;
         nodeClearance = 20;
         safeHorizontalOffset = max (nodeWidth / 2 + nodeClearance) 80;
         safeVerticalOffset = max (nodeHeight / 2 + nodeClearance) 50;
         edgeStaggerOffset = real edgeNumber * 30;
         horizontalOffset = safeHorizontalOffset + edgeStaggerOffset;
         verticalOffset = safeVerticalOffset + edgeStaggerOffset;
         isGatewayConnection = includes_str (toLowerCase ident) (js ''gateway'');
         path =
           (if isGatewayConnection then
              (let gatewayVerticalOffset = 100 + real edgeNumber * 50;
                   direction = (if edgeNumber mod 2 = 0 then 1 else -1)
               in [M sourceX sourceY, H (sourceX + horizontalOffset),
                   V (sourceY + direction * gatewayVerticalOffset), H targetX, V targetY])
            else if \<bar>sourceY - targetY\<bar> < safeVerticalOffset then
              (let direction = (if edgeNumber mod 2 = 0 then 1 else -1);
                   detourOffset = verticalOffset * 1.5 * direction
               in [M sourceX sourceY, H (sourceX + horizontalOffset),
                   V (sourceY + detourOffset), H (targetX - horizontalOffset),
                   V targetY, H targetX])
            else
              [M sourceX sourceY, H (sourceX + horizontalOffset), V targetY, H targetX]);
         labelPosX = (sourceX + targetX) / 2;
         labelPosY = (sourceY + targetY) / 2 - 15 - real edgeNumber * 5
     in (path, labelPosX, labelPosY))"

text \<open>
  The repository holds a second revision of the VPN component, which chooses its route
  from the distance between the anchors alone: it receives the identifier and computes no
  stagger index.
\<close>

definition OrthogonalVpnEdge_distance ::
  "jsstring \<Rightarrow> real \<Rightarrow> real \<Rightarrow> real \<Rightarrow> real \<Rightarrow> path \<times> real \<times> real" where
  "OrthogonalVpnEdge_distance ident sourceX sourceY targetX targetY =
    (let horizontalDistance = \<bar>targetX - sourceX\<bar>;
         goingRight = (targetX > sourceX);
         isLongDistanceToRight = (horizontalDistance > 800 \<and> goingRight);
         isMediumDistanceToRight =
           (horizontalDistance > 400 \<and> horizontalDistance < 700 \<and> goingRight);
         path =
           (if isLongDistanceToRight then
              (let downwardOffset = 180
               in [M sourceX sourceY, H (sourceX + 50), V (sourceY + downwardOffset),
                   H (targetX - 50), V targetY, H targetX])
            else if isMediumDistanceToRight then
              [M sourceX sourceY, H targetX]
            else
              (if \<bar>sourceY - targetY\<bar> < 30 then
                 [M sourceX sourceY, H targetX]
               else if \<bar>sourceX - targetX\<bar> < 30 then
                 [M sourceX sourceY, V targetY]
               else
                 (let turnX = sourceX + (targetX - sourceX) / 3
                  in [M sourceX sourceY, H turnX, V targetY, H targetX])));
         labelPosX = (sourceX + targetX) / 2;
         labelPosY = (sourceY + targetY) / 2 - 15
     in (path, labelPosX, labelPosY))"

subsection \<open>Trunk connections: OrthogonalTrunkEdge\<close>

definition OrthogonalTrunkEdge ::
  "jsstring \<Rightarrow> real \<Rightarrow> real \<Rightarrow> real \<Rightarrow> real \<Rightarrow> path \<times> real \<times> real" where
  "OrthogonalTrunkEdge ident sourceX sourceY targetX targetY =
    (let edgeNumber = edgeNumberOf ident;
         horizontalDistance = \<bar>targetX - sourceX\<bar>;
         verticalDistance = \<bar>targetY - sourceY\<bar>;
         isCrossSiteConnection = (horizontalDistance > 300);
         path =
           (if isCrossSiteConnection then
              (let verticalOffset = 20 + real edgeNumber * 40;
                   midX = sourceX + (targetX - sourceX) * 0.5;
                   offsetDirection =
                     (if edgeNumber = 0 then 0 else if edgeNumber = 1 then 1 else -1)
               in if offsetDirection = 0 then
                    [M sourceX sourceY, H midX, V targetY, H targetX]
                  else
                    (let offsetY = sourceY + offsetDirection * verticalOffset
                     in [M sourceX sourceY, V offsetY, H midX, V targetY, H targetX]))
            else if \<bar>sourceY - targetY\<bar> < 30 then
              [M sourceX sourceY, H targetX]
            else if \<bar>sourceX - targetX\<bar> < 30 then
              [M sourceX sourceY, V targetY]
            else
              (let offsetDirection = (if edgeNumber mod 2 = 0 then 1 else -1);
                   offsetAmount = 25 + real edgeNumber * 15
               in if horizontalDistance > verticalDistance then
                    (let midY = sourceY + offsetDirection * offsetAmount
                     in [M sourceX sourceY, V midY, H targetX, V targetY])
                  else
                    (let midX = sourceX + offsetDirection * offsetAmount
                     in [M sourceX sourceY, H midX, V targetY, H targetX])));
         labelPosX = (sourceX + targetX) / 2;
         labelPosY = (sourceY + targetY) / 2 - 12
     in (path, labelPosX, labelPosY))"

text \<open>
  The repository holds a second revision of the trunk component, which routes around the
  node footprint as the VPN component does.
\<close>

definition OrthogonalTrunkEdge_footprint ::
  "jsstring \<Rightarrow> real \<Rightarrow> real \<Rightarrow> real \<Rightarrow> real \<Rightarrow> path \<times> real \<times> real" where
  "OrthogonalTrunkEdge_footprint ident sourceX sourceY targetX targetY =
    (let edgeNumber = edgeNumberOf ident;
         horizontalDistance = \<bar>targetX - sourceX\<bar>;
         nodeWidth = 150;
         nodeHeight = 70;
         nodeClearance = 15;
         safeHorizontalOffset = max (nodeWidth / 2 + nodeClearance) 60;
         safeVerticalOffset = max (nodeHeight / 2 + nodeClearance) 40;
         edgeStaggerOffset = real edgeNumber * 25;
         horizontalOffset = safeHorizontalOffset + edgeStaggerOffset;
         verticalOffset = safeVerticalOffset + edgeStaggerOffset;
         path =
           (if \<bar>sourceY - targetY\<bar> < safeVerticalOffset then
              (let direction = (if edgeNumber mod 2 = 0 then 1 else -1);
                   detourOffset = verticalOffset * direction
               in [M sourceX sourceY, H (sourceX + horizontalOffset),
                   V (sourceY + detourOffset), H (targetX - horizontalOffset),
                   V targetY, H targetX])
            else if horizontalDistance < safeHorizontalOffset * 2 then
              (let smallOffset = 30 + real edgeNumber * 15
               in [M sourceX sourceY, H (sourceX + smallOffset), V targetY, H targetX])
            else
              [M sourceX sourceY, H (sourceX + horizontalOffset), V targetY, H targetX]);
         labelPosX = (sourceX + targetX) / 2;
         labelPosY = (sourceY + targetY) / 2 - 12
     in (path, labelPosX, labelPosY))"

subsection \<open>SAN connections: OrthogonalSanEdge\<close>

definition OrthogonalSanEdge ::
  "jsstring \<Rightarrow> real \<Rightarrow> real \<Rightarrow> real \<Rightarrow> real \<Rightarrow> path \<times> real \<times> real" where
  "OrthogonalSanEdge ident sourceX sourceY targetX targetY =
    (let edgeNumber = edgeNumberOf ident;
         horizontalDistance = \<bar>targetX - sourceX\<bar>;
         goingDown = (targetY > sourceY);
         isCrossSiteConnection = (horizontalDistance > 300);
         path =
           (if isCrossSiteConnection then
              (let verticalOffset = 40 + real edgeNumber * 50;
                   midX = sourceX + (targetX - sourceX) * 0.5;
                   offsetDirection =
                     (if edgeNumber = 0 then 0 else if edgeNumber = 1 then -1 else 1)
               in if offsetDirection = 0 then
                    [M sourceX sourceY, H midX, V targetY, H targetX]
                  else
                    (let offsetY = sourceY + offsetDirection * verticalOffset
                     in [M sourceX sourceY, V offsetY, H midX, V targetY, H targetX]))
            else if \<bar>sourceY - targetY\<bar> < 30 then
              [M sourceX sourceY, H targetX]
            else if \<bar>sourceX - targetX\<bar> < 30 then
              [M sourceX sourceY, V targetY]
            else
              (let offsetDirection = (if edgeNumber mod 2 = 0 then 1 else -1);
                   offsetAmount = 35 + real edgeNumber * 20
               in if goingDown then
                    (let midX = sourceX + offsetDirection * offsetAmount
                     in [M sourceX sourceY, H midX, V targetY, H targetX])
                  else
                    (let midY = sourceY + offsetDirection * offsetAmount
                     in [M sourceX sourceY, V midY, H targetX, V targetY])));
         labelPosX = (sourceX + targetX) / 2;
         labelPosY = (sourceY + targetY) / 2 - 12
     in (path, labelPosX, labelPosY))"

text \<open>The second revision of the SAN component in the repository.\<close>

definition OrthogonalSanEdge_footprint ::
  "jsstring \<Rightarrow> real \<Rightarrow> real \<Rightarrow> real \<Rightarrow> real \<Rightarrow> path \<times> real \<times> real" where
  "OrthogonalSanEdge_footprint ident sourceX sourceY targetX targetY =
    (let edgeNumber = edgeNumberOf ident;
         nodeWidth = 150;
         nodeHeight = 70;
         nodeClearance = 15;
         safeHorizontalOffset = max (nodeWidth / 2 + nodeClearance) 70;
         safeVerticalOffset = max (nodeHeight / 2 + nodeClearance) 45;
         edgeStaggerOffset = real edgeNumber * 30;
         horizontalOffset = safeHorizontalOffset + edgeStaggerOffset;
         path =
           (if \<bar>sourceY - targetY\<bar> < safeVerticalOffset then
              (let direction = (if edgeNumber mod 2 = 0 then -1 else 1);
                   detourOffset = (safeVerticalOffset + edgeStaggerOffset) * direction
               in [M sourceX sourceY, H (sourceX + horizontalOffset),
                   V (sourceY + detourOffset), H (targetX - horizontalOffset),
                   V targetY, H targetX])
            else
              [M sourceX sourceY, H (sourceX + horizontalOffset), V targetY, H targetX]);
         labelPosX = (sourceX + targetX) / 2;
         labelPosY = (sourceY + targetY) / 2 - 12
     in (path, labelPosX, labelPosY))"

text \<open>The four components the diagram registers, by connection kind.\<close>

datatype edgeKind = ConnectionEdge | VpnEdge | TrunkEdge | SanEdge

fun routeEdge ::
  "edgeKind \<Rightarrow> jsstring \<Rightarrow> real \<Rightarrow> real \<Rightarrow> real \<Rightarrow> real \<Rightarrow> path \<times> real \<times> real" where
  "routeEdge ConnectionEdge = OrthogonalConnectionEdge"
| "routeEdge VpnEdge = OrthogonalVpnEdge"
| "routeEdge TrunkEdge = OrthogonalTrunkEdge"
| "routeEdge SanEdge = OrthogonalSanEdge"

section \<open>The topology loader: parseNetworkConfig\<close>

text \<open>
  The shape of the configuration document, as the interfaces of \<open>network-parser.ts\<close>
  declare it. The cast of the parsed document to \<open>NetworkConfig\<close> checks nothing, so a
  field that the claims speak of as possibly missing is an option (\<open>None\<close> is JavaScript's
  \<open>undefined\<close>). A field that is present has its declared type: a document with an id
  that is a number, or with a list item that is not a mapping, is not a value of these
  records, and nothing below speaks of it. The display payload of a device (\<open>ip\<close>, \<open>model\<close>, \<open>os\<close>,
  \<open>hypervisor_type\<close>, \<open>virtual_machines\<close>) is copied into the node unread and is left out,
  as are the \<open>name\<close> and \<open>description\<close> of the document and the \<open>location\<close> of a site,
  which this loader never reads.
\<close>

record BaseConnection =
  conn_to :: string
  conn_label :: "string option"

record VpnConnection =
  to_site :: string
  vpn_label :: "string option"

record Device =
  device_id :: "string option"
  device_type :: "string option"
  device_name :: "string option"
  connections :: "BaseConnection list option"
  vpn_connections :: "VpnConnection list option"
  trunk_connections :: "BaseConnection list option"
  san_connections :: "BaseConnection list option"

record Site =
  site_id :: "string option"
  site_name :: "string option"
  devices :: "Device list option"

record NetworkConfig =
  sites :: "Site list option"

text \<open>
  The nodes and edges handed to the drawing library. The presentation fields that are the
  same constants on every node or edge of a kind (stroke styles, handles, markers,
  z-index, the \<open>draggable\<close> and \<open>selectable\<close> flags) are left out. Positions are whole
  numbers of pixels.
\<close>

datatype nodeType = NetworkNode | Group | SiteHeader

record Node =
  node_id :: "string option"
  node_position :: "int \<times> int"
  node_label :: "string option"
  node_deviceType :: "string option"
  node_width :: "int option"
  node_height :: "int option"
  node_backgroundColor :: "string option"
  node_type :: nodeType

record Edge =
  edge_id :: string
  edge_source :: "string option"
  edge_target :: "string option"
  edge_type :: edgeKind
  edge_label :: "string option"
  edge_isCrossSite :: "bool option"
  edge_index :: nat

record Output =
  out_nodes :: "Node list"
  out_edges :: "Edge list"

datatype error = YAMLException | TypeError

text \<open>
  The locals of \<open>parseNetworkConfig\<close> that its iterations mutate. \<open>siteNodeIds\<close> is written
  and never read, and is left out.
\<close>

record SiteDimensions =
  dim_width :: int
  dim_height :: int
  deviceCount :: nat

record Locals =
  nodes :: "Node list"
  edges :: "Edge list"
  sitePositions :: "string \<rightharpoonup> int \<times> int"
  siteDimensions :: "string \<rightharpoonup> SiteDimensions"

definition emptyLocals :: Locals where
  "emptyLocals = \<lparr>nodes = [], edges = [], sitePositions = Map.empty,
     siteDimensions = Map.empty\<rparr>"

text \<open>
  A value used as a property key or inside a template literal is converted to a string:
  \<open>undefined\<close> becomes the text \<open>undefined\<close>, a number its decimal digits.
\<close>

definition str :: "string option \<Rightarrow> string" where
  "str v = (case v of None \<Rightarrow> ''undefined'' | Some s \<Rightarrow> s)"

fun numStr :: "nat \<Rightarrow> string" where
  "numStr n = (if n < 10 then [''0123456789'' ! n]
               else numStr (n div 10) @ [''0123456789'' ! (n mod 10)])"

declare numStr.simps [simp del]

text \<open>\<open>a || b\<close> on an optional string: the empty string is falsy too.\<close>

definition orElse :: "string option \<Rightarrow> string \<Rightarrow> string" where
  "orElse v d = (case v of None \<Rightarrow> d | Some s \<Rightarrow> if s = [] then d else s)"

text \<open>
  \<open>Array.prototype.forEach\<close> with the element and its index, over a state. The first
  variant is for a callback that may throw: the exception ends the loop.
\<close>

fun forEachFrom ::
  "nat \<Rightarrow> 'a list \<Rightarrow> ('a \<Rightarrow> nat \<Rightarrow> 's \<Rightarrow> error + 's) \<Rightarrow> 's \<Rightarrow> error + 's" where
  "forEachFrom i [] body st = Inr st"
| "forEachFrom i (x # xs) body st =
     (case body x i st of Inl e \<Rightarrow> Inl e | Inr st' \<Rightarrow> forEachFrom (Suc i) xs body st')"

definition forEach :: "'a list \<Rightarrow> ('a \<Rightarrow> nat \<Rightarrow> 's \<Rightarrow> error + 's) \<Rightarrow> 's \<Rightarrow> error + 's" where
  "forEach xs body st = forEachFrom 0 xs body st"

fun forEachPureFrom :: "nat \<Rightarrow> 'a list \<Rightarrow> ('a \<Rightarrow> nat \<Rightarrow> 's \<Rightarrow> 's) \<Rightarrow> 's \<Rightarrow> 's" where
  "forEachPureFrom i [] body st = st"
| "forEachPureFrom i (x # xs) body st = forEachPureFrom (Suc i) xs body (body x i st)"

definition forEachPure :: "'a list \<Rightarrow> ('a \<Rightarrow> nat \<Rightarrow> 's \<Rightarrow> 's) \<Rightarrow> 's \<Rightarrow> 's" where
  "forEachPure xs body st = forEachPureFrom 0 xs body st"

definition pushEdge :: "Edge \<Rightarrow> Locals \<Rightarrow> Locals" where
  "pushEdge e st = st\<lparr>edges := edges st @ [e]\<rparr>"

definition siteSpacing :: int where
  "siteSpacing = 1100"

definition deviceSpacing :: int where
  "deviceSpacing = 250"

definition maxDevicesPerRow :: nat where
  "maxDevicesPerRow = 3"

subsection \<open>First loop: positions for sites\<close>

definition initSite :: "Site \<Rightarrow> nat \<Rightarrow> Locals \<Rightarrow> error + Locals" where
  "initSite site index st =
     (case devices site of
        None \<Rightarrow> Inl TypeError
      | Some ds \<Rightarrow>
          Inr (st\<lparr>sitePositions := (sitePositions st)
                     (str (site_id site) \<mapsto> (int index * siteSpacing, 100)),
                   siteDimensions := (siteDimensions st)
                     (str (site_id site) \<mapsto>
                        \<lparr>dim_width = 0, dim_height = 0, deviceCount = length ds\<rparr>)\<rparr>))"

subsection \<open>The edge pushed for a connection entry\<close>

definition connectionEdge :: "Device \<Rightarrow> BaseConnection \<Rightarrow> nat \<Rightarrow> Edge" where
  "connectionEdge device connection connIdx =
     \<lparr>edge_id = ''connection-'' @ str (device_id device) @ ''-'' @ conn_to connection @ ''-''
         @ numStr connIdx,
      edge_source = device_id device,
      edge_target = Some (conn_to connection),
      edge_type = ConnectionEdge,
      edge_label = conn_label connection,
      edge_isCrossSite = None,
      edge_index = connIdx\<rparr>"

definition trunkEdge :: "Device \<Rightarrow> BaseConnection \<Rightarrow> nat \<Rightarrow> Edge" where
  "trunkEdge device trunkConnection trunkIdx =
     \<lparr>edge_id = ''trunk-'' @ str (device_id device) @ ''-'' @ conn_to trunkConnection @ ''-''
         @ numStr trunkIdx,
      edge_source = device_id device,
      edge_target = Some (conn_to trunkConnection),
      edge_type = TrunkEdge,
      edge_label = Some (orElse (conn_label trunkConnection) ''Trunk''),
      edge_isCrossSite = None,
      edge_index = trunkIdx\<rparr>"

definition sanEdge :: "Device \<Rightarrow> BaseConnection \<Rightarrow> nat \<Rightarrow> Edge" where
  "sanEdge device sanConnection sanIdx =
     \<lparr>edge_id = ''san-'' @ str (device_id device) @ ''-'' @ conn_to sanConnection @ ''-''
         @ numStr sanIdx,
      edge_source = device_id device,
      edge_target = Some (conn_to sanConnection),
      edge_type = SanEdge,
      edge_label = Some (orElse (conn_label sanConnection) ''SAN''),
      edge_isCrossSite = None,
      edge_index = sanIdx\<rparr>"

definition vpnEdge :: "Site \<Rightarrow> Device \<Rightarrow> Site \<Rightarrow> Device \<Rightarrow> VpnConnection \<Rightarrow> nat \<Rightarrow> Edge" where
  "vpnEdge site device targetSite targetRouter vpnConnection vpnIndex =
     (let isCrossSite = (site_id targetSite \<noteq> site_id site);
          edgeId = ''vpn-'' @ str (device_id device) @ ''-'' @ str (device_id targetRouter)
            @ ''-'' @ numStr vpnIndex
      in \<lparr>edge_id = edgeId,
          edge_source = device_id device,
          edge_target = device_id targetRouter,
          edge_type = VpnEdge,
          edge_label = Some (orElse (vpn_label vpnConnection) ''VPN''),
          edge_isCrossSite = Some isCrossSite,
          edge_index = vpnIndex\<rparr>)"

text \<open>
  The body of the loop over \<open>vpn_connections\<close>: \<open>find\<close> the target site, \<open>find\<close> its
  router, push the edge when both are found. \<open>targetSite.devices.find\<close> would throw on a
  site without \<open>devices\<close>.
\<close>

definition processVpnConnection ::
  "Site list \<Rightarrow> Site \<Rightarrow> Device \<Rightarrow> VpnConnection \<Rightarrow> nat \<Rightarrow> Locals \<Rightarrow> error + Locals" where
  "processVpnConnection allSites site device vpnConnection vpnIndex st =
     (case find (\<lambda>s. site_id s = Some (to_site vpnConnection)) allSites of
        None \<Rightarrow> Inr st
      | Some targetSite \<Rightarrow>
          (case devices targetSite of
             None \<Rightarrow> Inl TypeError
           | Some targetDevices \<Rightarrow>
               (case find (\<lambda>d. device_type d = Some ''router'') targetDevices of
                  None \<Rightarrow> Inr st
                | Some targetRouter \<Rightarrow>
                    Inr (pushEdge
                      (vpnEdge site device targetSite targetRouter vpnConnection vpnIndex)
                      st))))"

text \<open>The four connection passes over a device, in the order of the source.\<close>

definition processConnections ::
  "Site list \<Rightarrow> Site \<Rightarrow> Device \<Rightarrow> Locals \<Rightarrow> error + Locals" where
  "processConnections allSites site device st =
     (let st1 = (case connections device of
                   None \<Rightarrow> st
                 | Some cs \<Rightarrow>
                     forEachPure cs (\<lambda>connection connIdx.
                       pushEdge (connectionEdge device connection connIdx)) st)
      in case (case vpn_connections device of
                 None \<Rightarrow> Inr st1
               | Some vs \<Rightarrow> forEach vs (processVpnConnection allSites site device) st1) of
           Inl e \<Rightarrow> Inl e
         | Inr st2 \<Rightarrow>
             (let st3 = (case trunk_connections device of
                           None \<Rightarrow> st2
                         | Some ts \<Rightarrow>
                             forEachPure ts (\<lambda>trunkConnection trunkIdx.
                               pushEdge (trunkEdge device trunkConnection trunkIdx)) st2);
                  st4 = (case san_connections device of
                           None \<Rightarrow> st3
                         | Some xs \<Rightarrow>
                             forEachPure xs (\<lambda>sanConnection sanIdx.
                               pushEdge (sanEdge device sanConnection sanIdx)) st3)
              in Inr st4))"

subsection \<open>Second loop: the nodes of a site\<close>

definition devicePosition :: "int \<times> int \<Rightarrow> nat \<Rightarrow> int \<times> int" where
  "devicePosition siteBasePosition deviceIndex =
     (let row = deviceIndex div maxDevicesPerRow;
          col = deviceIndex mod maxDevicesPerRow
      in (fst siteBasePosition + int col * deviceSpacing + 150,
          snd siteBasePosition + 100 + int row * 250))"

definition deviceNode :: "int \<times> int \<Rightarrow> Device \<Rightarrow> nat \<Rightarrow> Node" where
  "deviceNode siteBasePosition device deviceIndex =
     \<lparr>node_id = device_id device,
      node_position = devicePosition siteBasePosition deviceIndex,
      node_label = device_name device,
      node_deviceType = device_type device,
      node_width = None,
      node_height = None,
      node_backgroundColor = None,
      node_type = NetworkNode\<rparr>"

text \<open>
  The body of \<open>site.devices.forEach\<close>. Reading \<open>siteDimensions[site.id].width\<close> of a key
  that is not in the table would throw.
\<close>

definition processDevice ::
  "Site list \<Rightarrow> Site \<Rightarrow> int \<times> int \<Rightarrow> Device \<Rightarrow> nat \<Rightarrow> Locals \<Rightarrow> error + Locals" where
  "processDevice allSites site siteBasePosition device deviceIndex st =
     (let position = devicePosition siteBasePosition deviceIndex;
          st1 = st\<lparr>nodes := nodes st @ [deviceNode siteBasePosition device deviceIndex]\<rparr>;
          rightEdge = fst position + 150;
          bottomEdge = snd position + 150
      in case siteDimensions st1 (str (site_id site)) of
           None \<Rightarrow> Inl TypeError
         | Some dims \<Rightarrow>
             (let st2 = st1\<lparr>siteDimensions := (siteDimensions st1)
                          (str (site_id site) \<mapsto>
                             dims\<lparr>dim_width := max (dim_width dims)
                                    (rightEdge - fst siteBasePosition),
                                  dim_height := max (dim_height dims)
                                    (bottomEdge - snd siteBasePosition)\<rparr>)\<rparr>
              in processConnections allSites site device st2))"

definition backgroundNode :: "string \<Rightarrow> int \<times> int \<Rightarrow> SiteDimensions \<Rightarrow> Node" where
  "backgroundNode siteId siteBasePosition dims =
     \<lparr>node_id = Some (''site-'' @ siteId @ ''-bg''),
      node_position = (fst siteBasePosition - 50, snd siteBasePosition - 150),
      node_label = Some [],
      node_deviceType = None,
      node_width = Some (dim_width dims),
      node_height = Some (dim_height dims + 100),
      node_backgroundColor =
        Some (if startsWith siteId ''main'' then ''rgba(237, 242, 247, 0.7)''
              else ''rgba(242, 238, 252, 0.7)''),
      node_type = Group\<rparr>"

definition headerNode :: "string \<Rightarrow> string option \<Rightarrow> int \<times> int \<Rightarrow> Node" where
  "headerNode siteId siteName siteBasePosition =
     \<lparr>node_id = Some (''site-'' @ siteId @ ''-header''),
      node_position = (fst siteBasePosition - 20, snd siteBasePosition - 180),
      node_label = siteName,
      node_deviceType = None,
      node_width = Some 260,
      node_height = Some 50,
      node_backgroundColor =
        Some (if startsWith siteId ''main'' then ''#2b6cb0'' else ''#6d28d9''),
      node_type = SiteHeader\<rparr>"

text \<open>
  The body of the second \<open>networkConfig.sites.forEach\<close>: the device nodes and their
  edges, the padded dimensions, the background node put in front (\<open>unshift\<close>) and the
  header node. \<open>site.id.startsWith\<close> throws when the site has no \<open>id\<close>. The device type
  counts computed for a subtitle are not used by this revision.
\<close>

definition processSite :: "Site list \<Rightarrow> Site \<Rightarrow> nat \<Rightarrow> Locals \<Rightarrow> error + Locals" where
  "processSite allSites site siteIndex st =
     (case sitePositions st (str (site_id site)) of
        None \<Rightarrow> Inl TypeError
      | Some siteBasePosition \<Rightarrow>
          (case devices site of
             None \<Rightarrow> Inl TypeError
           | Some ds \<Rightarrow>
               (case forEach ds (processDevice allSites site siteBasePosition) st of
                  Inl e \<Rightarrow> Inl e
                | Inr st1 \<Rightarrow>
                    (let minWidth = max 600 (min 3 (int (length ds)) * deviceSpacing);
                         rows = \<lceil>real (length ds) / real maxDevicesPerRow\<rceil>;
                         minHeight = max 350 (rows * 250 + 100)
                     in case siteDimensions st1 (str (site_id site)) of
                          None \<Rightarrow> Inl TypeError
                        | Some dims \<Rightarrow>
                            (let dims' = dims\<lparr>dim_width := max minWidth (dim_width dims + 200),
                                            dim_height := max minHeight (dim_height dims + 200)\<rparr>;
                                 st2 = st1\<lparr>siteDimensions := (siteDimensions st1)
                                         (str (site_id site) \<mapsto> dims')\<rparr>
                             in case site_id site of
                                  None \<Rightarrow> Inl TypeError
                                | Some siteId \<Rightarrow>
                                    Inr (st2\<lparr>nodes :=
                                      backgroundNode siteId siteBasePosition dims' # nodes st2
                                        @ [headerNode siteId (site_name site)
                                             siteBasePosition]\<rparr>))))))"

subsection \<open>parseNetworkConfig\<close>

text \<open>
  \<open>yaml.load\<close> belongs to a library and is a parameter: it returns the document or
  throws. A document that is not a mapping, or whose \<open>sites\<close> is not a sequence, is a
  \<open>NetworkConfig\<close> without \<open>sites\<close>: \<open>networkConfig.sites.forEach\<close> throws on it. The
  \<open>catch\<close> block logs the exception and throws it again.
\<close>

definition parseNetworkConfig ::
  "(string \<Rightarrow> error + NetworkConfig) \<Rightarrow> string \<Rightarrow> error + Output" where
  "parseNetworkConfig yaml_load yamlContent =
     (case yaml_load yamlContent of
        Inl e \<Rightarrow> Inl e
      | Inr networkConfig \<Rightarrow>
          (case sites networkConfig of
             None \<Rightarrow> Inl TypeError
           | Some allSites \<Rightarrow>
               (case forEach allSites initSite emptyLocals of
                  Inl e \<Rightarrow> Inl e
                | Inr st1 \<Rightarrow>
                    (case forEach allSites (processSite allSites) st1 of
                       Inl e \<Rightarrow> Inl e
                     | Inr st2 \<Rightarrow> Inr \<lparr>out_nodes = nodes st2, out_edges = edges st2\<rparr>))))"

section \<open>Closed forms of the iterations\<close>

text \<open>
  The definitions of this section are not functions of the source: they name what the
  iterations of \<open>parseNetworkConfig\<close> compute, so that the properties can be stated. Each is
  tied to the loop it describes by a lemma below.
\<close>

definition optList :: "'a list option \<Rightarrow> 'a list" where
  "optList v = (case v of None \<Rightarrow> [] | Some xs \<Rightarrow> xs)"

definition vpnTarget :: "Site list \<Rightarrow> VpnConnection \<Rightarrow> (Site \<times> Device) option" where
  "vpnTarget allSites vpnConnection =
     (case find (\<lambda>s. site_id s = Some (to_site vpnConnection)) allSites of
        None \<Rightarrow> None
      | Some targetSite \<Rightarrow>
          (case find (\<lambda>d. device_type d = Some ''router'') (optList (devices targetSite)) of
             None \<Rightarrow> None
           | Some targetRouter \<Rightarrow> Some (targetSite, targetRouter)))"

definition vpnEdges :: "Site list \<Rightarrow> Site \<Rightarrow> Device \<Rightarrow> VpnConnection \<Rightarrow> nat \<Rightarrow> Edge list" where
  "vpnEdges allSites site device vpnConnection vpnIndex =
     (case vpnTarget allSites vpnConnection of
        None \<Rightarrow> []
      | Some (targetSite, targetRouter) \<Rightarrow>
          [vpnEdge site device targetSite targetRouter vpnConnection vpnIndex])"

definition deviceEdges :: "Site list \<Rightarrow> Site \<Rightarrow> Device \<Rightarrow> Edge list" where
  "deviceEdges allSites site device =
     map (\<lambda>(connIdx, connection). connectionEdge device connection connIdx)
       (enumerate 0 (optList (connections device)))
     @ concat (map (\<lambda>(vpnIndex, vpnConnection). vpnEdges allSites site device vpnConnection vpnIndex)
       (enumerate 0 (optList (vpn_connections device))))
     @ map (\<lambda>(trunkIdx, trunkConnection). trunkEdge device trunkConnection trunkIdx)
       (enumerate 0 (optList (trunk_connections device)))
     @ map (\<lambda>(sanIdx, sanConnection). sanEdge device sanConnection sanIdx)
       (enumerate 0 (optList (san_connections device)))"

definition siteEdges :: "Site list \<Rightarrow> Site \<Rightarrow> Edge list" where
  "siteEdges allSites site = concat (map (deviceEdges allSites site) (optList (devices site)))"

definition siteDeviceNodes :: "int \<times> int \<Rightarrow> Site \<Rightarrow> Node list" where
  "siteDeviceNodes siteBasePosition site =
     map (\<lambda>(deviceIndex, device). deviceNode siteBasePosition device deviceIndex)
       (enumerate 0 (optList (devices site)))"

definition growDims :: "nat \<Rightarrow> SiteDimensions \<Rightarrow> SiteDimensions" where
  "growDims deviceIndex dims =
     dims\<lparr>dim_width := max (dim_width dims) (int (deviceIndex mod 3) * 250 + 300),
          dim_height := max (dim_height dims) (int (deviceIndex div 3) * 250 + 250)\<rparr>"

definition siteKey :: "Site \<Rightarrow> string" where
  "siteKey site = str (site_id site)"

definition isDeviceNode :: "Node \<Rightarrow> bool" where
  "isDeviceNode n = (node_type n = NetworkNode)"

definition isBackground :: "Node \<Rightarrow> bool" where
  "isBackground n = (node_type n = Group)"

definition tablesCover :: "Locals \<Rightarrow> (string \<Rightarrow> int \<times> int) \<Rightarrow> Site list \<Rightarrow> bool" where
  "tablesCover st pos ss =
     (\<forall>s\<in>set ss. devices s \<noteq> None \<and> sitePositions st (siteKey s) = Some (pos (siteKey s)) \<and>
        siteDimensions st (siteKey s) \<noteq> None)"

definition freshWidths :: "Locals \<Rightarrow> Site list \<Rightarrow> bool" where
  "freshWidths st ss =
     (\<forall>s\<in>set ss. \<exists>d. siteDimensions st (siteKey s) = Some d \<and> dim_width d = 0)"

subsection \<open>Reading the output\<close>

text \<open>
  The device placements are the nodes of type \<open>networkNode\<close>, the site bounding boxes the
  nodes of type \<open>group\<close>; the placement of a device is the first device node that carries
  its id.
\<close>

definition devicePlacements :: "Output \<Rightarrow> Node list" where
  "devicePlacements out = filter isDeviceNode (out_nodes out)"

definition siteBackgrounds :: "Output \<Rightarrow> Node list" where
  "siteBackgrounds out = filter isBackground (out_nodes out)"

definition placementOf :: "Output \<Rightarrow> Device \<Rightarrow> Node option" where
  "placementOf out device = find (\<lambda>n. node_id n = device_id device) (devicePlacements out)"

definition allDevices :: "Site list \<Rightarrow> Device list" where
  "allDevices ss = concat (map (\<lambda>s. optList (devices s)) ss)"

definition resultEdges :: "error + Output \<Rightarrow> Edge list" where
  "resultEdges r = (case r of Inl e \<Rightarrow> [] | Inr out \<Rightarrow> out_edges out)"

definition resultNodes :: "error + Output \<Rightarrow> Node list" where
  "resultNodes r = (case r of Inl e \<Rightarrow> [] | Inr out \<Rightarrow> out_nodes out)"

subsection \<open>The ordering the specification describes\<close>

text \<open>
  The next two definitions follow the words of the specification, not the source: the
  priority of a device type (router, firewall, vpn, switch, server, hypervisor, storage,
  any other type counted with the servers), and a sequence of placements, in reading
  order, whose types never go back to a higher priority.
\<close>

definition spec_typePriority :: "string option \<Rightarrow> nat" where
  "spec_typePriority t =
     (if t = Some ''router'' then 1 else if t = Some ''firewall'' then 2
      else if t = Some ''vpn'' then 3 else if t = Some ''switch'' then 4
      else if t = Some ''server'' then 5 else if t = Some ''hypervisor'' then 6
      else if t = Some ''storage'' then 7 else 5)"

definition spec_groupedByPriority :: "Node list \<Rightarrow> bool" where
  "spec_groupedByPriority ns = sorted (map (\<lambda>n. spec_typePriority (node_deviceType n)) ns)"

section \<open>Example documents\<close>

text \<open>
  \<open>topologyScenario\<close> is the scenario of the specification: a site \<open>hq\<close> with a router
  connected to a switch, and a site \<open>branch\<close> whose router has a VPN connection to
  \<open>hq\<close>. The others exercise one case each: a connection to a device that does not exist,
  a server listed before a router, a device without \<open>id\<close> and \<open>type\<close>, a site without
  \<open>devices\<close>, a router with a VPN connection to its own site, a firewall with a VPN
  connection to its own site, which has no router, and two sites with the same id.
\<close>

definition plainDevice :: "string \<Rightarrow> string \<Rightarrow> Device" where
  "plainDevice ident type =
     \<lparr>device_id = Some ident, device_type = Some type, device_name = Some ident,
      connections = None, vpn_connections = None, trunk_connections = None,
      san_connections = None\<rparr>"

definition topologyScenario :: NetworkConfig where
  "topologyScenario = \<lparr>sites = Some [
     \<lparr>site_id = Some ''hq'', site_name = Some ''HQ'', devices = Some [
        (plainDevice ''hq-r1'' ''router'')
          \<lparr>connections := Some [\<lparr>conn_to = ''hq-sw1'', conn_label = None\<rparr>]\<rparr>,
        plainDevice ''hq-sw1'' ''switch'']\<rparr>,
     \<lparr>site_id = Some ''branch'', site_name = Some ''Branch'', devices = Some [
        (plainDevice ''br-r1'' ''router'')
          \<lparr>vpn_connections := Some [\<lparr>to_site = ''hq'', vpn_label = None\<rparr>]\<rparr>]\<rparr>]\<rparr>"

definition topologyDangling :: NetworkConfig where
  "topologyDangling = \<lparr>sites = Some [
     \<lparr>site_id = Some ''hq'', site_name = Some ''HQ'', devices = Some [
        (plainDevice ''r1'' ''router'')
          \<lparr>connections := Some [\<lparr>conn_to = ''ghost'', conn_label = None\<rparr>]\<rparr>]\<rparr>]\<rparr>"

definition topologyServerFirst :: NetworkConfig where
  "topologyServerFirst = \<lparr>sites = Some [
     \<lparr>site_id = Some ''hq'', site_name = Some ''HQ'', devices = Some [
        plainDevice ''srv1'' ''server'', plainDevice ''r1'' ''router'']\<rparr>]\<rparr>"

definition topologyUntyped :: NetworkConfig where
  "topologyUntyped = \<lparr>sites = Some [
     \<lparr>site_id = Some ''hq'', site_name = None, devices = Some [
        \<lparr>device_id = None, device_type = None, device_name = None,
         connections = None, vpn_connections = None, trunk_connections = None,
         san_connections = None\<rparr>]\<rparr>]\<rparr>"

definition topologyNoDevices :: NetworkConfig where
  "topologyNoDevices = \<lparr>sites = Some [
     \<lparr>site_id = Some ''hq'', site_name = Some ''HQ'', devices = None\<rparr>]\<rparr>"

definition topologySelfVpn :: NetworkConfig where
  "topologySelfVpn = \<lparr>sites = Some [
     \<lparr>site_id = Some ''hq'', site_name = Some ''HQ'', devices = Some [
        (plainDevice ''r1'' ''router'')
          \<lparr>vpn_connections := Some [\<lparr>to_site = ''hq'', vpn_label = None\<rparr>]\<rparr>]\<rparr>]\<rparr>"

definition topologyFirewallOnly :: NetworkConfig where
  "topologyFirewallOnly = \<lparr>sites = Some [
     \<lparr>site_id = Some ''hq'', site_name = Some ''HQ'', devices = Some [
        (plainDevice ''fw1'' ''firewall'')
          \<lparr>vpn_connections := Some [\<lparr>to_site = ''hq'', vpn_label = None\<rparr>]\<rparr>]\<rparr>]\<rparr>"

definition topologyDuplicateSites :: NetworkConfig where
  "topologyDuplicateSites = \<lparr>sites = Some [
     \<lparr>site_id = Some ''hq'', site_name = Some ''First'', devices = Some [
        plainDevice ''ra'' ''router'']\<rparr>,
     \<lparr>site_id = Some ''hq'', site_name = Some ''Second'', devices = Some [
        (plainDevice ''rb'' ''router'')
          \<lparr>vpn_connections := Some [\<lparr>to_site = ''hq'', vpn_label = None\<rparr>]\<rparr>]\<rparr>]\<rparr>"

section \<open>Properties of the routing components\<close>

lemma idSum_foldl:
  "foldl (\<lambda>sum char. sum + charCodeAt0 char) a ident = a + sum_list (map charCodeAt0 ident)"
  by (induction ident arbitrary: a) simp_all

lemma edgeNumberOf_sum:
  "edgeNumberOf ident = sum_list (map charCodeAt0 ident) mod 3"
  by (simp add: edgeNumberOf_def idSum_def idSum_foldl)

lemma OrthogonalVpnEdge_distance_no_diagonal:
  "successively notDiagonal
     (endpoints (edgePath (OrthogonalVpnEdge_distance ident sx sy tx ty)))"
  by (simp add: endpoints_def edgePath_def OrthogonalVpnEdge_distance_def Let_def
      notDiagonal_def)

lemma OrthogonalVpnEdge_distance_ignores_id:
  "OrthogonalVpnEdge_distance ident sx sy tx ty = OrthogonalVpnEdge_distance ident' sx sy tx ty"
  by (simp add: OrthogonalVpnEdge_distance_def)

text \<open>
  Claim C4. For every edge identifier, the stagger index that the routing components use
  is \<open>n\<close>, the sum of the character codes of the identifier modulo 3, one of 0, 1 and 2.
  It is the number each component computes first (\<open>edgeNumberOf\<close>); the detours of the
  connection, VPN, trunk and SAN components, and of the further revisions of the trunk and
  SAN components, are the functions of \<open>n\<close> stated below; and the route of a component
  depends on the identifier through \<open>n\<close> alone (for the VPN component, through \<open>n\<close> and
  whether the identifier contains \<open>gateway\<close>). The distance-based revision of the VPN
  component computes no index and is no part of the statement.
\<close>

theorem C4_stagger_index:
  assumes "n = sum_list (map charCodeAt0 ident) mod 3"
  shows "n \<in> {0, 1, 2} \<and> edgeNumberOf ident = n \<and>
    (\<bar>tx - sx\<bar> > 300 \<longrightarrow>
       edgePath (OrthogonalTrunkEdge ident sx sy tx ty) =
         (if n = 0 then [M sx sy, H (sx + (tx - sx) * 0.5), V ty, H tx]
          else [M sx sy, V (sy + (if n = 1 then 1 else - 1) * (20 + real n * 40)),
                H (sx + (tx - sx) * 0.5), V ty, H tx])) \<and>
    (\<bar>tx - sx\<bar> > 300 \<longrightarrow>
       edgePath (OrthogonalSanEdge ident sx sy tx ty) =
         (if n = 0 then [M sx sy, H (sx + (tx - sx) * 0.5), V ty, H tx]
          else [M sx sy, V (sy + (if n = 1 then - 1 else 1) * (40 + real n * 50)),
                H (sx + (tx - sx) * 0.5), V ty, H tx])) \<and>
    (45 \<le> \<bar>sy - ty\<bar> \<and> 85 \<le> \<bar>sx - tx\<bar> \<longrightarrow>
       edgePath (OrthogonalConnectionEdge ident sx sy tx ty) =
         [M sx sy, H (if tx > sx then sx + (85 + real n * 10) else sx - (85 + real n * 10)),
          V ty, H tx]) \<and>
    (\<not> includes_str (toLowerCase ident) (js ''gateway'') \<and> 55 \<le> \<bar>sy - ty\<bar> \<longrightarrow>
       edgePath (OrthogonalVpnEdge ident sx sy tx ty) =
         [M sx sy, H (sx + (95 + real n * 30)), V ty, H tx]) \<and>
    (50 \<le> \<bar>sy - ty\<bar> \<and> 180 \<le> \<bar>tx - sx\<bar> \<longrightarrow>
       edgePath (OrthogonalTrunkEdge_footprint ident sx sy tx ty) =
         [M sx sy, H (sx + (90 + real n * 25)), V ty, H tx]) \<and>
    (50 \<le> \<bar>sy - ty\<bar> \<longrightarrow>
       edgePath (OrthogonalSanEdge_footprint ident sx sy tx ty) =
         [M sx sy, H (sx + (90 + real n * 30)), V ty, H tx]) \<and>
    (\<forall>ident'. sum_list (map charCodeAt0 ident') mod 3 = n \<longrightarrow>
       OrthogonalConnectionEdge ident' = OrthogonalConnectionEdge ident \<and>
       OrthogonalTrunkEdge ident' = OrthogonalTrunkEdge ident \<and>
       OrthogonalSanEdge ident' = OrthogonalSanEdge ident \<and>
       OrthogonalTrunkEdge_footprint ident' = OrthogonalTrunkEdge_footprint ident \<and>
       OrthogonalSanEdge_footprint ident' = OrthogonalSanEdge_footprint ident \<and>
       (includes_str (toLowerCase ident') (js ''gateway'') =
          includes_str (toLowerCase ident) (js ''gateway'') \<longrightarrow>
        OrthogonalVpnEdge ident' = OrthogonalVpnEdge ident))"
proof -
  have e: "edgeNumberOf ident = n"
    using assms by (simp add: edgeNumberOf_sum)
  have r: "n < 3" using assms by simp
  then have n: "n \<in> {0, 1, 2}" by auto
  have trunk: "edgePath (OrthogonalTrunkEdge ident sx sy tx ty) =
         (if n = 0 then [M sx sy, H (sx + (tx - sx) * 0.5), V ty, H tx]
          else [M sx sy, V (sy + (if n = 1 then 1 else - 1) * (20 + real n * 40)),
                H (sx + (tx - sx) * 0.5), V ty, H tx])"
    if "\<bar>tx - sx\<bar> > 300"
    using that by (simp add: OrthogonalTrunkEdge_def edgePath_def e Let_def)
  have san: "edgePath (OrthogonalSanEdge ident sx sy tx ty) =
         (if n = 0 then [M sx sy, H (sx + (tx - sx) * 0.5), V ty, H tx]
          else [M sx sy, V (sy + (if n = 1 then - 1 else 1) * (40 + real n * 50)),
                H (sx + (tx - sx) * 0.5), V ty, H tx])"
    if "\<bar>tx - sx\<bar> > 300"
    using that by (simp add: OrthogonalSanEdge_def edgePath_def e Let_def)
  have conn: "edgePath (OrthogonalConnectionEdge ident sx sy tx ty) =
         [M sx sy, H (if tx > sx then sx + (85 + real n * 10) else sx - (85 + real n * 10)),
          V ty, H tx]"
    if "45 \<le> \<bar>sy - ty\<bar> \<and> 85 \<le> \<bar>sx - tx\<bar>"
    using that by (simp add: OrthogonalConnectionEdge_def edgePath_def e Let_def)
  have vpn: "edgePath (OrthogonalVpnEdge ident sx sy tx ty) =
         [M sx sy, H (sx + (95 + real n * 30)), V ty, H tx]"
    if "\<not> includes_str (toLowerCase ident) (js ''gateway'') \<and> 55 \<le> \<bar>sy - ty\<bar>"
    using that by (simp add: OrthogonalVpnEdge_def edgePath_def e Let_def)
  have trunk2: "edgePath (OrthogonalTrunkEdge_footprint ident sx sy tx ty) =
         [M sx sy, H (sx + (90 + real n * 25)), V ty, H tx]"
    if "50 \<le> \<bar>sy - ty\<bar> \<and> 180 \<le> \<bar>tx - sx\<bar>"
    using that by (simp add: OrthogonalTrunkEdge_footprint_def edgePath_def e Let_def)
  have san2: "edgePath (OrthogonalSanEdge_footprint ident sx sy tx ty) =
         [M sx sy, H (sx + (90 + real n * 30)), V ty, H tx]"
    if "50 \<le> \<bar>sy - ty\<bar>"
    using that by (simp add: OrthogonalSanEdge_footprint_def edgePath_def e Let_def)
  have same: "OrthogonalConnectionEdge ident' = OrthogonalConnectionEdge ident \<and>
       OrthogonalTrunkEdge ident' = OrthogonalTrunkEdge ident \<and>
       OrthogonalSanEdge ident' = OrthogonalSanEdge ident \<and>
       OrthogonalTrunkEdge_footprint ident' = OrthogonalTrunkEdge_footprint ident \<and>
       OrthogonalSanEdge_footprint ident' = OrthogonalSanEdge_footprint ident \<and>
       (includes_str (toLowerCase ident') (js ''gateway'') =
          includes_str (toLowerCase ident) (js ''gateway'') \<longrightarrow>
        OrthogonalVpnEdge ident' = OrthogonalVpnEdge ident)"
    if "sum_list (map charCodeAt0 ident') mod 3 = n" for ident'
  proof -
    have e': "edgeNumberOf ident' = edgeNumberOf ident"
      using that e by (simp add: edgeNumberOf_sum)
    show ?thesis
      by (simp add: fun_eq_iff e' OrthogonalConnectionEdge_def OrthogonalTrunkEdge_def
          OrthogonalSanEdge_def OrthogonalTrunkEdge_footprint_def
          OrthogonalSanEdge_footprint_def OrthogonalVpnEdge_def)
  qed
  from n e trunk san conn vpn trunk2 san2 same show ?thesis by blast
qed

text \<open>
  The theorem at three parallel trunk links and a SAN link, anchored at (0, 0) and
  (400, 100): stagger indices 0, 1 and 2 give three different trunk routes.
\<close>

theorem C4_stagger_index_witness:
  "sum_list (map charCodeAt0 (js ''trunk-sw1-sw2-1'')) = 1315 \<and>
   edgeNumberOf (js ''trunk-sw1-sw2-1'') = 1 \<and>
   edgePath (OrthogonalTrunkEdge (js ''trunk-sw1-sw2-1'') 0 0 400 100) =
     [M 0 0, V 60, H 200, V 100, H 400] \<and>
   edgePath (OrthogonalSanEdge (js ''san-sw1-sw2-0'') 0 0 400 100) =
     [M 0 0, V (- 90), H 200, V 100, H 400] \<and>
   edgePath (OrthogonalTrunkEdge (js ''trunk-sw1-sw2-0'') 0 0 400 100) =
     [M 0 0, H 200, V 100, H 400] \<and>
   edgePath (OrthogonalTrunkEdge (js ''trunk-sw1-sw2-2'') 0 0 400 100) =
     [M 0 0, V (- 100), H 200, V 100, H 400]"
proof -
  have s1: "sum_list (map charCodeAt0 (js ''trunk-sw1-sw2-1'')) = 1315"
    by (simp add: js_def charCodeAt0_def)
  have h1: "(1::nat) = sum_list (map charCodeAt0 (js ''trunk-sw1-sw2-1'')) mod 3"
    by (simp add: s1)
  have h0: "(0::nat) = sum_list (map charCodeAt0 (js ''trunk-sw1-sw2-0'')) mod 3"
    by (simp add: js_def charCodeAt0_def)
  have h2: "(2::nat) = sum_list (map charCodeAt0 (js ''trunk-sw1-sw2-2'')) mod 3"
    by (simp add: js_def charCodeAt0_def)
  have hs: "(1::nat) = sum_list (map charCodeAt0 (js ''san-sw1-sw2-0'')) mod 3"
    by (simp add: js_def charCodeAt0_def)
  have g: "\<bar>400 - 0\<bar> > (300::real)" by simp
  from C4_stagger_index[OF h1, of 400 0 0 100] g
  have a: "edgeNumberOf (js ''trunk-sw1-sw2-1'') = 1"
    "edgePath (OrthogonalTrunkEdge (js ''trunk-sw1-sw2-1'') 0 0 400 100) =
       [M 0 0, V 60, H 200, V 100, H 400]"
    by simp_all
  from C4_stagger_index[OF hs, of 400 0 0 100] g
  have b: "edgePath (OrthogonalSanEdge (js ''san-sw1-sw2-0'') 0 0 400 100) =
       [M 0 0, V (- 90), H 200, V 100, H 400]"
    by simp
  from C4_stagger_index[OF h0, of 400 0 0 100] g
  have c: "edgePath (OrthogonalTrunkEdge (js ''trunk-sw1-sw2-0'') 0 0 400 100) =
       [M 0 0, H 200, V 100, H 400]"
    by simp
  from C4_stagger_index[OF h2, of 400 0 0 100] g
  have d: "edgePath (OrthogonalTrunkEdge (js ''trunk-sw1-sw2-2'') 0 0 400 100) =
       [M 0 0, V (- 100), H 200, V 100, H 400]"
    by simp
  from s1 a b c d show ?thesis by simp
qed

text \<open>
  Claim C5, as stated: every two consecutive endpoints of a routed path differ in exactly
  one coordinate. The trunk component refutes it: for the second trunk link from
  \<open>sw1\<close> to \<open>sw2\<close> (stagger index 1), anchored at (0, 100) and (100, 60), the path is
  \<open>M 0 100 V 60 H 100 V 60\<close>, whose last segment has length zero.
\<close>

theorem C5_exactly_one_counterexample:
  "\<not> successively differsInExactlyOne
      (endpoints (edgePath (routeEdge TrunkEdge (js ''trunk-sw1-sw2-1'') 0 100 100 60)))"
  by (simp add: endpoints_def edgePath_def OrthogonalTrunkEdge_def edgeNumberOf_def
      idSum_def js_def charCodeAt0_def differsInExactlyOne_def)

text \<open>
  Claim C5, amended. For every edge identifier and every pair of anchors, the path of
  each of the four connection kinds (and of the two further revisions of the trunk and
  SAN components) has no diagonal segment: two consecutive endpoints never differ in both
  coordinates. A segment may have length zero.
\<close>

theorem C5_no_diagonal_segment:
  "successively notDiagonal (endpoints (edgePath (routeEdge kind ident sx sy tx ty))) \<and>
   successively notDiagonal
     (endpoints (edgePath (OrthogonalTrunkEdge_footprint ident sx sy tx ty))) \<and>
   successively notDiagonal
     (endpoints (edgePath (OrthogonalSanEdge_footprint ident sx sy tx ty)))"
proof -
  have conn: "successively notDiagonal
      (endpoints (edgePath (OrthogonalConnectionEdge ident sx sy tx ty)))"
    by (simp add: endpoints_def edgePath_def OrthogonalConnectionEdge_def Let_def
        notDiagonal_def)
  have vpn: "successively notDiagonal
      (endpoints (edgePath (OrthogonalVpnEdge ident sx sy tx ty)))"
    by (simp add: endpoints_def edgePath_def OrthogonalVpnEdge_def Let_def notDiagonal_def)
  have trunk: "successively notDiagonal
      (endpoints (edgePath (OrthogonalTrunkEdge ident sx sy tx ty)))"
    by (simp add: endpoints_def edgePath_def OrthogonalTrunkEdge_def Let_def notDiagonal_def)
  have san: "successively notDiagonal
      (endpoints (edgePath (OrthogonalSanEdge ident sx sy tx ty)))"
    by (simp add: endpoints_def edgePath_def OrthogonalSanEdge_def Let_def notDiagonal_def)
  have trunk2: "successively notDiagonal
      (endpoints (edgePath (OrthogonalTrunkEdge_footprint ident sx sy tx ty)))"
    by (simp add: endpoints_def edgePath_def OrthogonalTrunkEdge_footprint_def Let_def
        notDiagonal_def)
  have san2: "successively notDiagonal
      (endpoints (edgePath (OrthogonalSanEdge_footprint ident sx sy tx ty)))"
    by (simp add: endpoints_def edgePath_def OrthogonalSanEdge_footprint_def Let_def
        notDiagonal_def)
  have "successively notDiagonal (endpoints (edgePath (routeEdge kind ident sx sy tx ty)))"
    using conn vpn trunk san by (cases kind) simp_all
  with trunk2 san2 show ?thesis by simp
qed

theorem C5_no_diagonal_segment_witness:
  "endpoints (edgePath (routeEdge TrunkEdge (js ''trunk-sw1-sw2-1'') 0 100 100 60)) =
     [(0, 100), (0, 60), (100, 60), (100, 60)] \<and>
   successively notDiagonal [(0, 100), (0, 60), (100, 60), (100 :: real, 60 :: real)]"
  using C5_no_diagonal_segment [of TrunkEdge "js ''trunk-sw1-sw2-1''" 0 100 100 60]
  by (simp add: endpoints_def edgePath_def OrthogonalTrunkEdge_def edgeNumberOf_def
      idSum_def js_def charCodeAt0_def notDiagonal_def)

section \<open>Properties of the loader\<close>

subsection \<open>What the iterations compute\<close>

lemma forEachPureFrom_push:
  "forEachPureFrom i xs (\<lambda>x idx. pushEdge (mk x idx)) st =
     st\<lparr>edges := edges st @ map (\<lambda>(idx, x). mk x idx) (enumerate i xs)\<rparr>"
  by (induction xs arbitrary: i st) (simp_all add: pushEdge_def)

lemma find_in_set:
  "find P xs = Some x \<Longrightarrow> x \<in> set xs"
  by (auto simp: find_Some_iff)

lemma processVpnConnection_eq:
  assumes "\<forall>s\<in>set allSites. devices s \<noteq> None"
  shows "processVpnConnection allSites site device v i st =
     Inr (st\<lparr>edges := edges st @ vpnEdges allSites site device v i\<rparr>)"
proof (cases "find (\<lambda>s. site_id s = Some (to_site v)) allSites")
  case None
  then show ?thesis
    by (simp add: processVpnConnection_def vpnEdges_def vpnTarget_def)
next
  case (Some targetSite)
  with assms obtain tds where "devices targetSite = Some tds"
    using find_in_set[OF Some] by auto
  with Some show ?thesis
    by (simp add: processVpnConnection_def vpnEdges_def vpnTarget_def optList_def pushEdge_def
        split: option.splits)
qed

lemma forEachFrom_vpn:
  assumes "\<forall>s\<in>set allSites. devices s \<noteq> None"
  shows "forEachFrom i vs (processVpnConnection allSites site device) st =
     Inr (st\<lparr>edges := edges st @ concat (map (\<lambda>(idx, v). vpnEdges allSites site device v idx)
       (enumerate i vs))\<rparr>)"
  by (induction vs arbitrary: i st) (simp_all add: processVpnConnection_eq[OF assms])

lemma processConnections_eq:
  assumes "\<forall>s\<in>set allSites. devices s \<noteq> None"
  shows "processConnections allSites site device st =
     Inr (st\<lparr>edges := edges st @ deviceEdges allSites site device\<rparr>)"
  by (simp add: processConnections_def deviceEdges_def forEachPure_def forEach_def
      forEachPureFrom_push forEachFrom_vpn[OF assms] optList_def Let_def
      split: option.splits)

lemma processDevice_eq:
  assumes "siteDimensions st (str (site_id site)) = Some dims"
    and "\<forall>s\<in>set allSites. devices s \<noteq> None"
  shows "processDevice allSites site base device i st =
     Inr \<lparr>nodes = nodes st @ [deviceNode base device i],
          edges = edges st @ deviceEdges allSites site device,
          sitePositions = sitePositions st,
          siteDimensions = (siteDimensions st)(str (site_id site) \<mapsto> growDims i dims)\<rparr>"
  using assms(1)
  by (cases st)
    (simp add: processDevice_def processConnections_eq[OF assms(2)] growDims_def
      devicePosition_def maxDevicesPerRow_def deviceSpacing_def Let_def add.commute)

lemma growDims_bounds:
  "dim_width dims \<le> dim_width (growDims i dims)"
  "dim_width (growDims i dims) \<le> max (dim_width dims) 800"
  "deviceCount (growDims i dims) = deviceCount dims"
  by (auto simp: growDims_def)

lemma deviceLoop:
  assumes "siteDimensions st (str (site_id site)) = Some dims"
    and "\<forall>s\<in>set allSites. devices s \<noteq> None"
  shows "\<exists>dims'. forEachFrom i ds (processDevice allSites site base) st =
     Inr \<lparr>nodes = nodes st @ map (\<lambda>(idx, d). deviceNode base d idx) (enumerate i ds),
          edges = edges st @ concat (map (deviceEdges allSites site) ds),
          sitePositions = sitePositions st,
          siteDimensions = (siteDimensions st)(str (site_id site) \<mapsto> dims')\<rparr>
     \<and> dim_width dims \<le> dim_width dims' \<and> dim_width dims' \<le> max (dim_width dims) 800
     \<and> deviceCount dims' = deviceCount dims"
  using assms(1)
proof (induction ds arbitrary: i st dims)
  case Nil
  then show ?case by (cases st) (auto intro!: exI[of _ dims] simp: map_upd_triv)
next
  case (Cons d ds)
  let ?st1 = "\<lparr>nodes = nodes st @ [deviceNode base d i],
          edges = edges st @ deviceEdges allSites site d,
          sitePositions = sitePositions st,
          siteDimensions = (siteDimensions st)(str (site_id site) \<mapsto> growDims i dims)\<rparr>"
  have step: "processDevice allSites site base d i st = Inr ?st1"
    using Cons.prems assms(2) by (rule processDevice_eq)
  have "siteDimensions ?st1 (str (site_id site)) = Some (growDims i dims)" by simp
  from Cons.IH[OF this, of "Suc i"] obtain dims' where
    loop: "forEachFrom (Suc i) ds (processDevice allSites site base) ?st1 =
       Inr \<lparr>nodes = nodes ?st1 @ map (\<lambda>(idx, d). deviceNode base d idx) (enumerate (Suc i) ds),
             edges = edges ?st1 @ concat (map (deviceEdges allSites site) ds),
             sitePositions = sitePositions ?st1,
             siteDimensions = (siteDimensions ?st1)(str (site_id site) \<mapsto> dims')\<rparr>"
    and b1: "dim_width (growDims i dims) \<le> dim_width dims'"
    and b2: "dim_width dims' \<le> max (dim_width (growDims i dims)) 800"
    and b3: "deviceCount dims' = deviceCount (growDims i dims)"
    by blast
  have w: "dim_width dims \<le> dim_width dims'" "dim_width dims' \<le> max (dim_width dims) 800"
    "deviceCount dims' = deviceCount dims"
    using b1 b2 b3 growDims_bounds[where dims=dims and i=i] by auto
  have "forEachFrom i (d # ds) (processDevice allSites site base) st =
     Inr \<lparr>nodes = nodes st @ map (\<lambda>(idx, d). deviceNode base d idx) (enumerate i (d # ds)),
          edges = edges st @ concat (map (deviceEdges allSites site) (d # ds)),
          sitePositions = sitePositions st,
          siteDimensions = (siteDimensions st)(str (site_id site) \<mapsto> dims')\<rparr>"
    using step loop by simp
  with w show ?case by blast
qed

lemma node_kinds [simp]:
  "isDeviceNode (deviceNode base d i)" "\<not> isDeviceNode (backgroundNode sid base dims)"
  "\<not> isDeviceNode (headerNode sid nm base)"
  "\<not> isBackground (deviceNode base d i)" "isBackground (backgroundNode sid base dims)"
  "\<not> isBackground (headerNode sid nm base)"
  by (simp_all add: isDeviceNode_def isBackground_def deviceNode_def backgroundNode_def
      headerNode_def)

lemma filter_siteDeviceNodes [simp]:
  "filter isDeviceNode (siteDeviceNodes base site) = siteDeviceNodes base site"
  "filter isBackground (siteDeviceNodes base site) = []"
  by (auto simp: siteDeviceNodes_def filter_empty_conv filter_id_conv)

lemma processSite_eq:
  assumes "sitePositions st (str (site_id site)) = Some base"
    and "siteDimensions st (str (site_id site)) = Some dims"
    and "devices site = Some ds" and "site_id site = Some sid"
    and "\<forall>s\<in>set allSites. devices s \<noteq> None"
  shows "\<exists>dims'. processSite allSites site idx st =
      Inr \<lparr>nodes = backgroundNode sid base dims' # nodes st @ siteDeviceNodes base site
                    @ [headerNode sid (site_name site) base],
           edges = edges st @ siteEdges allSites site,
           sitePositions = sitePositions st,
           siteDimensions = (siteDimensions st)(sid \<mapsto> dims')\<rparr>
      \<and> 600 \<le> dim_width dims' \<and> dim_width dims' \<le> max (dim_width dims) 800 + 200"
proof -
  from deviceLoop[OF assms(2) assms(5), of 0 ds base] obtain d1 where
    loop: "forEachFrom 0 ds (processDevice allSites site base) st =
     Inr \<lparr>nodes = nodes st @ map (\<lambda>(idx, d). deviceNode base d idx) (enumerate 0 ds),
          edges = edges st @ concat (map (deviceEdges allSites site) ds),
          sitePositions = sitePositions st,
          siteDimensions = (siteDimensions st)(str (site_id site) \<mapsto> d1)\<rparr>"
    and w: "dim_width d1 \<le> max (dim_width dims) 800"
    by blast
  define minWidth where "minWidth = max 600 (min 3 (int (length ds)) * deviceSpacing)"
  define minHeight where
    "minHeight = max 350 (\<lceil>real (length ds) / real maxDevicesPerRow\<rceil> * 250 + 100)"
  define d2 where "d2 = d1\<lparr>dim_width := max minWidth (dim_width d1 + 200),
      dim_height := max minHeight (dim_height d1 + 200)\<rparr>"
  have mw: "600 \<le> minWidth" "minWidth \<le> 750"
    by (auto simp: minWidth_def deviceSpacing_def)
  have "processSite allSites site idx st =
      Inr \<lparr>nodes = backgroundNode sid base d2 # nodes st @ siteDeviceNodes base site
                    @ [headerNode sid (site_name site) base],
           edges = edges st @ siteEdges allSites site,
           sitePositions = sitePositions st,
           siteDimensions = (siteDimensions st)(sid \<mapsto> d2)\<rparr>"
    using assms(1-4) loop
    by (simp add: processSite_def forEach_def Let_def str_def siteDeviceNodes_def siteEdges_def
        optList_def d2_def minWidth_def minHeight_def)
  moreover have "600 \<le> dim_width d2" "dim_width d2 \<le> max (dim_width dims) 800 + 200"
    using mw w by (auto simp: d2_def)
  ultimately show ?thesis by blast
qed

lemma processSite_no_id:
  assumes "sitePositions st (str (site_id site)) = Some base"
    and "siteDimensions st (str (site_id site)) = Some dims"
    and "devices site = Some ds" and "site_id site = None"
    and "\<forall>s\<in>set allSites. devices s \<noteq> None"
  shows "processSite allSites site idx st = Inl TypeError"
proof -
  from deviceLoop[OF assms(2) assms(5), of 0 ds base] obtain d1 where
    loop: "forEachFrom 0 ds (processDevice allSites site base) st =
     Inr \<lparr>nodes = nodes st @ map (\<lambda>(idx, d). deviceNode base d idx) (enumerate 0 ds),
          edges = edges st @ concat (map (deviceEdges allSites site) ds),
          sitePositions = sitePositions st,
          siteDimensions = (siteDimensions st)(str (site_id site) \<mapsto> d1)\<rparr>"
    by blast
  show ?thesis
    using assms(1-4) loop by (simp add: processSite_def forEach_def Let_def)
qed

lemma initSite_eq:
  "devices site = Some ds \<Longrightarrow> initSite site index st =
     Inr \<lparr>nodes = nodes st, edges = edges st,
          sitePositions = (sitePositions st)(siteKey site \<mapsto> (int index * siteSpacing, 100)),
          siteDimensions = (siteDimensions st)(siteKey site \<mapsto>
             \<lparr>dim_width = 0, dim_height = 0, deviceCount = length ds\<rparr>)\<rparr>"
  by (cases st) (simp add: initSite_def siteKey_def)

lemma initLoop_fail:
  "\<exists>s\<in>set ss. devices s = None \<Longrightarrow> forEachFrom i ss initSite st = Inl TypeError"
proof (induction ss arbitrary: i st)
  case Nil
  then show ?case by simp
next
  case (Cons s ss)
  show ?case
  proof (cases "devices s")
    case None
    then show ?thesis by (simp add: initSite_def)
  next
    case (Some ds)
    with Cons.prems have "\<exists>s\<in>set ss. devices s = None" by auto
    from Cons.IH[OF this] show ?thesis using Some by (simp add: initSite_eq)
  qed
qed

lemma initLoop_ok:
  assumes "\<forall>s\<in>set ss. devices s \<noteq> None"
  shows "\<exists>st'. forEachFrom i ss initSite st = Inr st' \<and> nodes st' = nodes st \<and>
     edges st' = edges st \<and>
     (\<forall>k. k \<in> siteKey ` set ss \<or> sitePositions st k \<noteq> None \<longrightarrow> sitePositions st' k \<noteq> None) \<and>
     (\<forall>k. k \<in> siteKey ` set ss \<or> siteDimensions st k \<noteq> None \<longrightarrow> siteDimensions st' k \<noteq> None)"
  using assms
proof (induction ss arbitrary: i st)
  case Nil
  then show ?case by simp
next
  case (Cons s ss)
  then obtain ds where ds: "devices s = Some ds" by auto
  let ?st1 = "\<lparr>nodes = nodes st, edges = edges st,
          sitePositions = (sitePositions st)(siteKey s \<mapsto> (int i * siteSpacing, 100)),
          siteDimensions = (siteDimensions st)(siteKey s \<mapsto>
             \<lparr>dim_width = 0, dim_height = 0, deviceCount = length ds\<rparr>)\<rparr>"
  from Cons.prems have "\<forall>s\<in>set ss. devices s \<noteq> None" by simp
  from Cons.IH[OF this, of "Suc i" ?st1] obtain st' where
    st': "forEachFrom (Suc i) ss initSite ?st1 = Inr st'" "nodes st' = nodes ?st1"
      "edges st' = edges ?st1"
      "\<forall>k. k \<in> siteKey ` set ss \<or> sitePositions ?st1 k \<noteq> None \<longrightarrow> sitePositions st' k \<noteq> None"
      "\<forall>k. k \<in> siteKey ` set ss \<or> siteDimensions ?st1 k \<noteq> None \<longrightarrow> siteDimensions st' k \<noteq> None"
    by blast
  have "forEachFrom i (s # ss) initSite st = Inr st'"
    using st'(1) ds by (simp add: initSite_eq)
  moreover have "nodes st' = nodes st" "edges st' = edges st" using st' by simp_all
  moreover have "\<forall>k. k \<in> siteKey ` set (s # ss) \<or> sitePositions st k \<noteq> None
      \<longrightarrow> sitePositions st' k \<noteq> None"
    using st'(4) by auto
  moreover have "\<forall>k. k \<in> siteKey ` set (s # ss) \<or> siteDimensions st k \<noteq> None
      \<longrightarrow> siteDimensions st' k \<noteq> None"
    using st'(5) by auto
  ultimately show ?case by blast
qed

lemma initLoop_other:
  "forEachFrom i ss initSite st = Inr st' \<Longrightarrow> k \<notin> siteKey ` set ss \<Longrightarrow>
     sitePositions st' k = sitePositions st k \<and> siteDimensions st' k = siteDimensions st k"
proof (induction ss arbitrary: i st)
  case Nil
  then show ?case by simp
next
  case (Cons s ss)
  show ?case
  proof (cases "devices s")
    case None
    with Cons.prems show ?thesis by (simp add: initSite_def)
  next
    case (Some ds)
    let ?st1 = "\<lparr>nodes = nodes st, edges = edges st,
          sitePositions = (sitePositions st)(siteKey s \<mapsto> (int i * siteSpacing, 100)),
          siteDimensions = (siteDimensions st)(siteKey s \<mapsto>
             \<lparr>dim_width = 0, dim_height = 0, deviceCount = length ds\<rparr>)\<rparr>"
    from Cons.prems Some have "forEachFrom (Suc i) ss initSite ?st1 = Inr st'"
      by (simp add: initSite_eq)
    moreover from Cons.prems have "k \<notin> siteKey ` set ss" "k \<noteq> siteKey s" by auto
    ultimately show ?thesis using Cons.IH[of "Suc i" ?st1] by simp
  qed
qed

lemma initLoop_distinct:
  "forEachFrom i ss initSite st = Inr st' \<Longrightarrow> distinct (map siteKey ss) \<Longrightarrow> j < length ss \<Longrightarrow>
     sitePositions st' (siteKey (ss ! j)) = Some (int (i + j) * siteSpacing, 100) \<and>
     (\<exists>d. siteDimensions st' (siteKey (ss ! j)) = Some d \<and> dim_width d = 0)"
proof (induction ss arbitrary: i st j)
  case Nil
  then show ?case by simp
next
  case (Cons s ss)
  show ?case
  proof (cases "devices s")
    case None
    with Cons.prems show ?thesis by (simp add: initSite_def)
  next
    case (Some ds)
    let ?st1 = "\<lparr>nodes = nodes st, edges = edges st,
          sitePositions = (sitePositions st)(siteKey s \<mapsto> (int i * siteSpacing, 100)),
          siteDimensions = (siteDimensions st)(siteKey s \<mapsto>
             \<lparr>dim_width = 0, dim_height = 0, deviceCount = length ds\<rparr>)\<rparr>"
    from Cons.prems Some have loop: "forEachFrom (Suc i) ss initSite ?st1 = Inr st'"
      by (simp add: initSite_eq)
    show ?thesis
    proof (cases j)
      case 0
      from Cons.prems have "siteKey s \<notin> siteKey ` set ss" by auto
      from initLoop_other[OF loop this] show ?thesis using 0 by simp
    next
      case (Suc j')
      with Cons.prems have "distinct (map siteKey ss)" "j' < length ss" by auto
      from Cons.IH[OF loop this] show ?thesis using Suc by simp
    qed
  qed
qed

lemma tablesCover_Cons:
  "tablesCover st pos (s # ss) \<Longrightarrow> tablesCover st pos ss"
  by (simp add: tablesCover_def)

lemma tablesCover_step:
  assumes "tablesCover st pos ss" and "sitePositions st1 = sitePositions st"
    and "siteDimensions st1 = (siteDimensions st)(k \<mapsto> d)"
  shows "tablesCover st1 pos ss"
  using assms by (auto simp: tablesCover_def)

lemma siteLoop_fail:
  assumes "tablesCover st pos rest" and "\<exists>s\<in>set rest. site_id s = None"
    and "\<forall>s\<in>set allSites. devices s \<noteq> None"
  shows "forEachFrom i rest (processSite allSites) st = Inl TypeError"
  using assms(1,2)
proof (induction rest arbitrary: i st)
  case Nil
  then show ?case by simp
next
  case (Cons s rest)
  from Cons.prems(1) obtain ds dims where
    s: "devices s = Some ds" "sitePositions st (str (site_id s)) = Some (pos (siteKey s))"
       "siteDimensions st (str (site_id s)) = Some dims"
    by (auto simp: tablesCover_def siteKey_def)
  show ?case
  proof (cases "site_id s")
    case None
    from processSite_no_id[OF s(2) s(3) s(1) None assms(3)] show ?thesis by simp
  next
    case (Some sid)
    from processSite_eq[OF s(2) s(3) s(1) Some assms(3), of i] obtain st1 where
      st1: "processSite allSites s i st = Inr st1" "sitePositions st1 = sitePositions st"
        "\<exists>d. siteDimensions st1 = (siteDimensions st)(sid \<mapsto> d)"
      by force
    then obtain d where d: "siteDimensions st1 = (siteDimensions st)(sid \<mapsto> d)" by blast
    have cover: "tablesCover st1 pos rest"
      using tablesCover_step[OF tablesCover_Cons[OF Cons.prems(1)] st1(2) d] .
    from Cons.prems(2) Some have "\<exists>s\<in>set rest. site_id s = None" by auto
    from Cons.IH[OF cover this] show ?thesis using st1(1) by simp
  qed
qed

lemma siteLoop_ok:
  assumes "tablesCover st pos rest" and "\<forall>s\<in>set rest. site_id s \<noteq> None"
    and "\<forall>s\<in>set allSites. devices s \<noteq> None"
  shows "\<exists>st'. forEachFrom i rest (processSite allSites) st = Inr st' \<and>
     edges st' = edges st @ concat (map (siteEdges allSites) rest) \<and>
     filter isDeviceNode (nodes st') =
       filter isDeviceNode (nodes st)
         @ concat (map (\<lambda>s. siteDeviceNodes (pos (siteKey s)) s) rest)"
  using assms(1,2)
proof (induction rest arbitrary: i st)
  case Nil
  then show ?case by simp
next
  case (Cons s rest)
  from Cons.prems(1) obtain ds dims where
    s: "devices s = Some ds" "sitePositions st (str (site_id s)) = Some (pos (siteKey s))"
       "siteDimensions st (str (site_id s)) = Some dims"
    by (auto simp: tablesCover_def siteKey_def)
  from Cons.prems(2) obtain sid where sid: "site_id s = Some sid" by auto
  from processSite_eq[OF s(2) s(3) s(1) sid assms(3), of i] obtain d where
    step: "processSite allSites s i st =
      Inr \<lparr>nodes = backgroundNode sid (pos (siteKey s)) d # nodes st
                    @ siteDeviceNodes (pos (siteKey s)) s
                    @ [headerNode sid (site_name s) (pos (siteKey s))],
           edges = edges st @ siteEdges allSites s,
           sitePositions = sitePositions st,
           siteDimensions = (siteDimensions st)(sid \<mapsto> d)\<rparr>" (is "_ = Inr ?st1")
    by blast
  have cover: "tablesCover ?st1 pos rest"
    by (rule tablesCover_step[OF tablesCover_Cons[OF Cons.prems(1)]]) simp_all
  from Cons.prems(2) have "\<forall>s\<in>set rest. site_id s \<noteq> None" by simp
  from Cons.IH[OF cover this, of "Suc i"] obtain st' where
    st': "forEachFrom (Suc i) rest (processSite allSites) ?st1 = Inr st'"
      "edges st' = edges ?st1 @ concat (map (siteEdges allSites) rest)"
      "filter isDeviceNode (nodes st') = filter isDeviceNode (nodes ?st1)
         @ concat (map (\<lambda>s. siteDeviceNodes (pos (siteKey s)) s) rest)"
    by blast
  have "forEachFrom i (s # rest) (processSite allSites) st = Inr st'"
    using step st'(1) by simp
  moreover have "edges st' = edges st @ concat (map (siteEdges allSites) (s # rest))"
    using st'(2) by simp
  moreover have "filter isDeviceNode (nodes st') = filter isDeviceNode (nodes st)
         @ concat (map (\<lambda>s. siteDeviceNodes (pos (siteKey s)) s) (s # rest))"
    using st'(3) by simp
  ultimately show ?case by blast
qed

lemma siteLoop_backgrounds:
  assumes "tablesCover st pos rest" and "\<forall>s\<in>set rest. site_id s \<noteq> None"
    and "distinct (map siteKey rest)" and "freshWidths st rest"
    and "forEachFrom i rest (processSite allSites) st = Inr st'"
    and "\<forall>s\<in>set allSites. devices s \<noteq> None"
  shows "map node_position (filter isBackground (nodes st')) =
       rev (map (\<lambda>s. (fst (pos (siteKey s)) - 50, snd (pos (siteKey s)) - 150)) rest)
         @ map node_position (filter isBackground (nodes st)) \<and>
     (\<forall>n\<in>set (filter isBackground (nodes st')). n \<in> set (nodes st) \<or>
        (\<exists>w. node_width n = Some w \<and> 600 \<le> w \<and> w \<le> 1000))"
  using assms(1-5)
proof (induction rest arbitrary: i st)
  case Nil
  then show ?case by auto
next
  case (Cons s rest)
  from Cons.prems(1,4) obtain ds dims where
    s: "devices s = Some ds" "sitePositions st (str (site_id s)) = Some (pos (siteKey s))"
       "siteDimensions st (str (site_id s)) = Some dims" "dim_width dims = 0"
    by (auto simp: tablesCover_def siteKey_def freshWidths_def)
  from Cons.prems(2) obtain sid where sid: "site_id s = Some sid" by auto
  from processSite_eq[OF s(2) s(3) s(1) sid assms(6), of i] obtain d where
    step: "processSite allSites s i st =
      Inr \<lparr>nodes = backgroundNode sid (pos (siteKey s)) d # nodes st
                    @ siteDeviceNodes (pos (siteKey s)) s
                    @ [headerNode sid (site_name s) (pos (siteKey s))],
           edges = edges st @ siteEdges allSites s,
           sitePositions = sitePositions st,
           siteDimensions = (siteDimensions st)(sid \<mapsto> d)\<rparr>" (is "_ = Inr ?st1")
    and w: "600 \<le> dim_width d" "dim_width d \<le> max (dim_width dims) 800 + 200"
    by blast
  have cover: "tablesCover ?st1 pos rest"
    by (rule tablesCover_step[OF tablesCover_Cons[OF Cons.prems(1)]]) simp_all
  have ids: "\<forall>s\<in>set rest. site_id s \<noteq> None" using Cons.prems(2) by simp
  have dist: "distinct (map siteKey rest)" using Cons.prems(3) by simp
  have "sid = siteKey s" using sid by (simp add: siteKey_def str_def)
  with Cons.prems(3) have "\<forall>r\<in>set rest. siteKey r \<noteq> sid" by (auto simp: image_iff)
  with Cons.prems(4) have fresh: "freshWidths ?st1 rest"
    by (auto simp: freshWidths_def)
  have loop: "forEachFrom (Suc i) rest (processSite allSites) ?st1 = Inr st'"
    using Cons.prems(5) step by simp
  note IH = Cons.IH[OF cover ids dist fresh loop]
  have bgw: "node_width (backgroundNode sid (pos (siteKey s)) d) = Some (dim_width d)"
    "node_position (backgroundNode sid (pos (siteKey s)) d) =
       (fst (pos (siteKey s)) - 50, snd (pos (siteKey s)) - 150)"
    by (simp_all add: backgroundNode_def)
  have "dim_width d \<le> 1000" using w s(4) by simp
  show ?case
  proof (intro conjI ballI)
    show "map node_position (filter isBackground (nodes st')) =
       rev (map (\<lambda>s. (fst (pos (siteKey s)) - 50, snd (pos (siteKey s)) - 150)) (s # rest))
         @ map node_position (filter isBackground (nodes st))"
      using IH bgw by simp
  next
    fix n assume "n \<in> set (filter isBackground (nodes st'))"
    with IH have "n \<in> set (nodes ?st1) \<or> (\<exists>w. node_width n = Some w \<and> 600 \<le> w \<and> w \<le> 1000)"
      by blast
    moreover have "isBackground n" using \<open>n \<in> set (filter isBackground (nodes st'))\<close> by simp
    ultimately show "n \<in> set (nodes st) \<or> (\<exists>w. node_width n = Some w \<and> 600 \<le> w \<and> w \<le> 1000)"
      using bgw(1) w(1) \<open>dim_width d \<le> 1000\<close>
      by (auto simp: siteDeviceNodes_def)
  qed
qed

lemma parse_yaml_error:
  "yaml_load yamlContent = Inl e \<Longrightarrow> parseNetworkConfig yaml_load yamlContent = Inl e"
  by (simp add: parseNetworkConfig_def)

lemma parse_no_sites:
  "yaml_load yamlContent = Inr cfg \<Longrightarrow> sites cfg = None \<Longrightarrow>
     parseNetworkConfig yaml_load yamlContent = Inl TypeError"
  by (simp add: parseNetworkConfig_def)

lemma parse_missing:
  assumes "yaml_load yamlContent = Inr cfg" and "sites cfg = Some ss"
    and "\<exists>s\<in>set ss. site_id s = None \<or> devices s = None"
  shows "parseNetworkConfig yaml_load yamlContent = Inl TypeError"
proof (cases "\<exists>s\<in>set ss. devices s = None")
  case True
  from initLoop_fail[OF this] show ?thesis
    using assms(1,2) by (simp add: parseNetworkConfig_def forEach_def)
next
  case False
  then have dev: "\<forall>s\<in>set ss. devices s \<noteq> None" by simp
  with assms(3) have noid: "\<exists>s\<in>set ss. site_id s = None" by auto
  from initLoop_ok[OF dev, of 0 emptyLocals] obtain st1 where
    st1: "forEachFrom 0 ss initSite emptyLocals = Inr st1"
      "\<forall>k. k \<in> siteKey ` set ss \<or> sitePositions emptyLocals k \<noteq> None \<longrightarrow> sitePositions st1 k \<noteq> None"
      "\<forall>k. k \<in> siteKey ` set ss \<or> siteDimensions emptyLocals k \<noteq> None \<longrightarrow> siteDimensions st1 k \<noteq> None"
    by blast
  have cover: "tablesCover st1 (\<lambda>k. the (sitePositions st1 k)) ss"
    using dev st1(2,3) by (auto simp: tablesCover_def)
  from siteLoop_fail[OF cover noid dev] show ?thesis
    using assms(1,2) st1(1) by (simp add: parseNetworkConfig_def forEach_def)
qed

lemma parse_ok:
  assumes "yaml_load yamlContent = Inr cfg" and "sites cfg = Some ss"
    and "\<forall>s\<in>set ss. site_id s \<noteq> None \<and> devices s \<noteq> None"
  shows "\<exists>out pos. parseNetworkConfig yaml_load yamlContent = Inr out \<and>
     out_edges out = concat (map (siteEdges ss) ss) \<and>
     filter isDeviceNode (out_nodes out) =
       concat (map (\<lambda>s. siteDeviceNodes (pos (siteKey s)) s) ss) \<and>
     (distinct (map siteKey ss) \<longrightarrow>
        (\<forall>j<length ss. pos (siteKey (ss ! j)) = (int j * siteSpacing, 100)) \<and>
        map node_position (filter isBackground (out_nodes out)) =
          rev (map (\<lambda>s. (fst (pos (siteKey s)) - 50, snd (pos (siteKey s)) - 150)) ss) \<and>
        (\<forall>n\<in>set (filter isBackground (out_nodes out)).
           \<exists>w. node_width n = Some w \<and> 600 \<le> w \<and> w \<le> 1000))"
proof -
  from assms(3) have dev: "\<forall>s\<in>set ss. devices s \<noteq> None"
    and ids: "\<forall>s\<in>set ss. site_id s \<noteq> None" by simp_all
  from initLoop_ok[OF dev, of 0 emptyLocals] obtain st1 where
    st1: "forEachFrom 0 ss initSite emptyLocals = Inr st1"
      "nodes st1 = nodes emptyLocals" "edges st1 = edges emptyLocals"
      "\<forall>k. k \<in> siteKey ` set ss \<or> sitePositions emptyLocals k \<noteq> None \<longrightarrow> sitePositions st1 k \<noteq> None"
      "\<forall>k. k \<in> siteKey ` set ss \<or> siteDimensions emptyLocals k \<noteq> None \<longrightarrow> siteDimensions st1 k \<noteq> None"
    by blast
  define pos where "pos = (\<lambda>k. the (sitePositions st1 k))"
  have cover: "tablesCover st1 pos ss"
    using dev st1(4,5) by (auto simp: tablesCover_def pos_def)
  from siteLoop_ok[OF cover ids dev, of 0] obtain st2 where
    st2: "forEachFrom 0 ss (processSite ss) st1 = Inr st2"
      "edges st2 = edges st1 @ concat (map (siteEdges ss) ss)"
      "filter isDeviceNode (nodes st2) = filter isDeviceNode (nodes st1)
         @ concat (map (\<lambda>s. siteDeviceNodes (pos (siteKey s)) s) ss)"
    by blast
  let ?out = "\<lparr>out_nodes = nodes st2, out_edges = edges st2\<rparr>"
  have res: "parseNetworkConfig yaml_load yamlContent = Inr ?out"
    using assms(1,2) st1(1) st2(1) by (simp add: parseNetworkConfig_def forEach_def)
  have e: "out_edges ?out = concat (map (siteEdges ss) ss)"
    using st2(2) st1(3) by (simp add: emptyLocals_def)
  have n: "filter isDeviceNode (out_nodes ?out) =
       concat (map (\<lambda>s. siteDeviceNodes (pos (siteKey s)) s) ss)"
    using st2(3) st1(2) by (simp add: emptyLocals_def)
  have d: "(\<forall>j<length ss. pos (siteKey (ss ! j)) = (int j * siteSpacing, 100)) \<and>
        map node_position (filter isBackground (out_nodes ?out)) =
          rev (map (\<lambda>s. (fst (pos (siteKey s)) - 50, snd (pos (siteKey s)) - 150)) ss) \<and>
        (\<forall>n\<in>set (filter isBackground (out_nodes ?out)).
           \<exists>w. node_width n = Some w \<and> 600 \<le> w \<and> w \<le> 1000)"
    if dist: "distinct (map siteKey ss)"
  proof -
    have p: "\<forall>j<length ss. pos (siteKey (ss ! j)) = (int j * siteSpacing, 100)"
      using initLoop_distinct[OF st1(1) dist] by (simp add: pos_def)
    have fresh: "freshWidths st1 ss"
      unfolding freshWidths_def
    proof
      fix s assume "s \<in> set ss"
      then obtain j where "j < length ss" "ss ! j = s" by (auto simp: in_set_conv_nth)
      with initLoop_distinct[OF st1(1) dist, of j]
      show "\<exists>d. siteDimensions st1 (siteKey s) = Some d \<and> dim_width d = 0" by auto
    qed
    from siteLoop_backgrounds[OF cover ids dist fresh st2(1) dev] st1(2)
    show ?thesis using p by (auto simp: emptyLocals_def)
  qed
  from res e n d show ?thesis by blast
qed

subsection \<open>Auxiliary facts\<close>

lemma parse_Inr_complete:
  assumes "yaml_load yamlContent = Inr cfg" and "sites cfg = Some ss"
    and "parseNetworkConfig yaml_load yamlContent = Inr out"
  shows "\<forall>s\<in>set ss. site_id s \<noteq> None \<and> devices s \<noteq> None"
proof (rule ccontr)
  assume "\<not> (\<forall>s\<in>set ss. site_id s \<noteq> None \<and> devices s \<noteq> None)"
  then have "\<exists>s\<in>set ss. site_id s = None \<or> devices s = None" by auto
  with parse_missing[of yaml_load yamlContent cfg ss] assms show False by simp
qed

lemma siteDeviceNodes_ids:
  "map node_id (siteDeviceNodes base s) = map device_id (optList (devices s))"
proof -
  have "map node_id (siteDeviceNodes base s) =
      map (device_id \<circ> snd) (enumerate 0 (optList (devices s)))"
    by (auto simp: siteDeviceNodes_def deviceNode_def)
  also have "\<dots> = map device_id (optList (devices s))"
    by (simp add: map_map[symmetric] del: map_map)
  finally show ?thesis .
qed

lemma siteDeviceNodes_nth:
  "devices s = Some ds \<Longrightarrow> i < length ds \<Longrightarrow>
     siteDeviceNodes base s ! i = deviceNode base (ds ! i) i"
  by (simp add: siteDeviceNodes_def optList_def nth_enumerate_eq)

lemma siteDeviceNodes_length:
  "devices s = Some ds \<Longrightarrow> length (siteDeviceNodes base s) = length ds"
  by (simp add: siteDeviceNodes_def optList_def)

lemma placements_ids:
  "map node_id (concat (map (\<lambda>s. siteDeviceNodes (pos (siteKey s)) s) ss)) =
     map device_id (allDevices ss)"
  by (induction ss) (simp_all add: allDevices_def siteDeviceNodes_ids)

lemma distinct_map_filter_one:
  "distinct (map f xs) \<Longrightarrow> x \<in> set xs \<Longrightarrow> length (filter (\<lambda>y. f y = f x) xs) = 1"
proof (induction xs)
  case Nil
  then show ?case by simp
next
  case (Cons a xs)
  show ?case
  proof (cases "f a = f x")
    case True
    with Cons.prems have "\<forall>y\<in>set xs. f y \<noteq> f x" by (auto simp: image_iff)
    then have "filter (\<lambda>y. f y = f x) xs = []" by (simp add: filter_empty_conv)
    with True show ?thesis by simp
  next
    case False
    with Cons show ?thesis by auto
  qed
qed

lemma distinct_map_find:
  "distinct (map f xs) \<Longrightarrow> x \<in> set xs \<Longrightarrow> find (\<lambda>y. f y = f x) xs = Some x"
proof (induction xs)
  case Nil
  then show ?case by simp
next
  case (Cons a xs)
  show ?case
  proof (cases "a = x")
    case True
    then show ?thesis by simp
  next
    case False
    with Cons.prems have "x \<in> set xs" "f a \<noteq> f x" by (auto simp: image_iff)
    with Cons show ?thesis by simp
  qed
qed

lemma devicePosition_apart:
  assumes "i \<noteq> j"
  shows "(i div 3, i mod 3) \<noteq> (j div 3, j mod 3) \<and>
    (250 \<le> \<bar>fst (devicePosition base i) - fst (devicePosition base j)\<bar> \<or>
     250 \<le> \<bar>snd (devicePosition base i) - snd (devicePosition base j)\<bar>)"
proof -
  have cells: "i div 3 \<noteq> j div 3 \<or> i mod 3 \<noteq> j mod 3"
    using assms by (metis div_mult_mod_eq)
  have x: "250 \<le> \<bar>fst (devicePosition base i) - fst (devicePosition base j)\<bar>"
    if "i mod 3 \<noteq> j mod 3"
  proof -
    have "int (i mod 3) \<noteq> int (j mod 3)" using that by simp
    then have "1 \<le> \<bar>int (i mod 3) - int (j mod 3)\<bar>" by linarith
    then show ?thesis
      by (simp add: devicePosition_def maxDevicesPerRow_def deviceSpacing_def Let_def)
  qed
  have y: "250 \<le> \<bar>snd (devicePosition base i) - snd (devicePosition base j)\<bar>"
    if "i div 3 \<noteq> j div 3"
  proof -
    have "int (i div 3) \<noteq> int (j div 3)" using that by simp
    then have "1 \<le> \<bar>int (i div 3) - int (j div 3)\<bar>" by linarith
    then show ?thesis
      by (simp add: devicePosition_def maxDevicesPerRow_def deviceSpacing_def Let_def)
  qed
  from cells x y show ?thesis by auto
qed

lemma distinct_siteKeys:
  assumes "distinct (map site_id ss)" and "\<forall>s\<in>set ss. site_id s \<noteq> None"
  shows "distinct (map siteKey ss)"
proof -
  from assms(1) have d: "distinct ss" and inj: "inj_on site_id (set ss)"
    by (simp_all add: distinct_map)
  have "inj_on siteKey (set ss)"
  proof (rule inj_onI)
    fix a b assume ab: "a \<in> set ss" "b \<in> set ss" "siteKey a = siteKey b"
    with assms(2) obtain x y where "site_id a = Some x" "site_id b = Some y" by blast
    with ab(3) have "site_id a = site_id b" by (simp add: siteKey_def str_def)
    with inj ab(1,2) show "a = b" by (auto dest: inj_onD)
  qed
  with d show ?thesis by (simp add: distinct_map)
qed

lemma map_by_index:
  assumes "\<forall>j<length xs. f (xs ! j) = g j"
  shows "map f xs = map g [0..<length xs]"
  using assms by (auto intro: nth_equalityI)

lemma map_by_enumerate:
  assumes "\<forall>j<length xs. f (xs ! j) = g j (xs ! j)"
  shows "map f xs = map (\<lambda>(j, x). g j x) (enumerate 0 xs)"
  using assms by (auto intro!: nth_equalityI simp: nth_enumerate_eq)

lemma length_concat_vpnEdges:
  "length (concat (map (\<lambda>(k, v). vpnEdges ss site device v k) (enumerate n vs))) =
     length (filter (\<lambda>v. vpnTarget ss v \<noteq> None) vs)"
  by (induction vs arbitrary: n) (auto simp: vpnEdges_def split: option.splits)

lemma length_deviceEdges:
  "length (deviceEdges ss site device) =
     length (optList (connections device)) +
     length (filter (\<lambda>v. vpnTarget ss v \<noteq> None) (optList (vpn_connections device))) +
     length (optList (trunk_connections device)) +
     length (optList (san_connections device))"
  by (simp add: deviceEdges_def length_concat_vpnEdges)

text \<open>
  The definitions a concrete document is evaluated with.
\<close>

lemmas eval_defs = parseNetworkConfig_def forEach_def initSite_def emptyLocals_def
  processSite_def str_def processDevice_def processConnections_def forEachPure_def
  pushEdge_def connectionEdge_def processVpnConnection_def vpnEdge_def trunkEdge_def
  sanEdge_def devicePosition_def deviceNode_def maxDevicesPerRow_def deviceSpacing_def
  siteSpacing_def backgroundNode_def headerNode_def orElse_def numStr.simps plainDevice_def
  resultEdges_def resultNodes_def Let_def devicePlacements_def siteBackgrounds_def
  placementOf_def allDevices_def optList_def isDeviceNode_def isBackground_def

subsection \<open>Edges per connection entry\<close>

text \<open>
  Claim C1, as stated: a connection whose \<open>to\<close> does not resolve to a device yields no
  edge. The loader refutes it: the router of \<open>topologyDangling\<close> has one connection, to
  \<open>ghost\<close>, no device has that id, and the load returns one edge whose target is
  \<open>ghost\<close>.
\<close>

theorem C1_unresolved_target_counterexample:
  "map edge_target (resultEdges (parseNetworkConfig (\<lambda>_. Inr topologyDangling) [])) =
     [Some ''ghost''] \<and>
   Some ''ghost'' \<notin> set (map device_id (allDevices (optList (sites topologyDangling))))"
  by (simp add: eval_defs topologyDangling_def)

text \<open>
  Claim C1, amended. The statement is about the documents of the declared shape, those a
  \<open>NetworkConfig\<close> describes: every field that is present has the type the interfaces of
  the loader declare. A load of such a document whose sites all have \<open>id\<close> and \<open>devices\<close>
  returns normally, and its edges are, site by site and device by device, one edge for
  every entry of \<open>connections\<close>, \<open>trunk_connections\<close> and \<open>san_connections\<close>, whether
  or not \<open>to\<close> names a device (the edge's target is \<open>to\<close> as written), and for every
  entry of \<open>vpn_connections\<close> one edge when \<open>to_site\<close> resolves to a site with a router
  and none otherwise.
\<close>

theorem C1_edges_per_entry:
  assumes "yaml_load yamlContent = Inr cfg" and "sites cfg = Some ss"
    and "\<forall>s\<in>set ss. site_id s \<noteq> None \<and> devices s \<noteq> None"
  shows "\<exists>out. parseNetworkConfig yaml_load yamlContent = Inr out \<and>
     out_edges out = concat (map (siteEdges ss) ss) \<and>
     (\<forall>site device.
        length (deviceEdges ss site device) =
          length (optList (connections device)) +
          length (filter (\<lambda>v. vpnTarget ss v \<noteq> None) (optList (vpn_connections device))) +
          length (optList (trunk_connections device)) +
          length (optList (san_connections device))) \<and>
     (\<forall>device c k.
        edge_target (connectionEdge device c k) = Some (conn_to c) \<and>
        edge_target (trunkEdge device c k) = Some (conn_to c) \<and>
        edge_target (sanEdge device c k) = Some (conn_to c))"
proof -
  from parse_ok[of yaml_load yamlContent cfg ss] assms obtain out where
    "parseNetworkConfig yaml_load yamlContent = Inr out"
    "out_edges out = concat (map (siteEdges ss) ss)"
    by blast
  then show ?thesis
    by (auto simp: length_deviceEdges connectionEdge_def trunkEdge_def sanEdge_def)
qed

text \<open>
  The theorem at \<open>topologyDangling\<close>: the load returns, with the single edge
  \<open>connection-r1-ghost-0\<close>.
\<close>

theorem C1_edges_per_entry_witness:
  "\<exists>out. parseNetworkConfig (\<lambda>_. Inr topologyDangling) [] = Inr out \<and>
     map edge_id (out_edges out) = [''connection-r1-ghost-0''] \<and>
     map edge_target (out_edges out) = [Some ''ghost'']"
proof -
  define ss where "ss = optList (sites topologyDangling)"
  have s: "sites topologyDangling = Some ss"
    by (simp add: ss_def optList_def topologyDangling_def)
  have c: "\<forall>s\<in>set ss. site_id s \<noteq> None \<and> devices s \<noteq> None"
    by (simp add: ss_def optList_def topologyDangling_def)
  from C1_edges_per_entry[of "\<lambda>_. Inr topologyDangling" "[]" topologyDangling ss, OF refl s c]
  obtain out where
    out: "parseNetworkConfig (\<lambda>_. Inr topologyDangling) [] = Inr out"
      "out_edges out = concat (map (siteEdges ss) ss)"
    by blast
  have "map edge_id (concat (map (siteEdges ss) ss)) = [''connection-r1-ghost-0'']"
    "map edge_target (concat (map (siteEdges ss) ss)) = [Some ''ghost'']"
    by (simp_all add: ss_def optList_def topologyDangling_def siteEdges_def deviceEdges_def
        plainDevice_def connectionEdge_def str_def numStr.simps)
  with out show ?thesis by auto
qed

subsection \<open>Order of the devices of a site\<close>

text \<open>
  Claim C2, as stated: within a site the devices are placed grouped by type, routers
  before servers, rather than in input order. The loader of \<open>network-parser.ts\<close> refutes
  it: for a site that lists a server and then a router, the server is placed in the first
  cell of the row and the router in the second.
\<close>

theorem C2_priority_order_counterexample:
  "map (\<lambda>n. (node_id n, node_deviceType n, node_position n))
     (filter isDeviceNode (resultNodes (parseNetworkConfig (\<lambda>_. Inr topologyServerFirst) []))) =
     [(Some ''srv1'', Some ''server'', (150, 200)), (Some ''r1'', Some ''router'', (400, 200))] \<and>
   \<not> spec_groupedByPriority
     (filter isDeviceNode (resultNodes (parseNetworkConfig (\<lambda>_. Inr topologyServerFirst) [])))"
  by (simp add: eval_defs topologyServerFirst_def spec_groupedByPriority_def
      spec_typePriority_def)

text \<open>
  Claim C2, amended. Within every site the loader places the devices in input order:
  the device at index k of the site's \<open>devices\<close> goes to row \<open>k div 3\<close>, column
  \<open>k mod 3\<close> of a grid of pitch 250 whose origin depends on the site alone; the type of a
  device plays no part in its position.
\<close>

theorem C2_input_order:
  assumes "yaml_load yamlContent = Inr cfg" and "sites cfg = Some ss"
    and "parseNetworkConfig yaml_load yamlContent = Inr out"
  shows "\<exists>base. devicePlacements out =
           concat (map (\<lambda>site. map (\<lambda>(k, device). deviceNode (base site) device k)
             (enumerate 0 (optList (devices site)))) ss) \<and>
         (\<forall>b device k.
            node_id (deviceNode b device k) = device_id device \<and>
            node_position (deviceNode b device k) =
              (fst b + int (k mod 3) * 250 + 150, snd b + 100 + int (k div 3) * 250))"
proof -
  have complete: "\<forall>s\<in>set ss. site_id s \<noteq> None \<and> devices s \<noteq> None"
    using parse_Inr_complete[of yaml_load yamlContent cfg ss out] assms by blast
  from parse_ok[of yaml_load yamlContent cfg ss] assms complete obtain pos where
    pl: "devicePlacements out = concat (map (\<lambda>s. siteDeviceNodes (pos (siteKey s)) s) ss)"
    by (auto simp: devicePlacements_def)
  have "devicePlacements out =
      concat (map (\<lambda>site. map (\<lambda>(k, device). deviceNode (pos (siteKey site)) device k)
        (enumerate 0 (optList (devices site)))) ss)"
    using pl by (simp add: siteDeviceNodes_def)
  moreover have "\<forall>b device k.
            node_id (deviceNode b device k) = device_id device \<and>
            node_position (deviceNode b device k) =
              (fst b + int (k mod 3) * 250 + 150, snd b + 100 + int (k div 3) * 250)"
    by (simp add: deviceNode_def devicePosition_def maxDevicesPerRow_def deviceSpacing_def Let_def)
  ultimately show ?thesis
    by (intro exI[of _ "\<lambda>site. pos (siteKey site)"] conjI)
qed

text \<open>
  The theorem at \<open>topologyServerFirst\<close>.
\<close>

theorem C2_input_order_witness:
  "\<exists>out. parseNetworkConfig (\<lambda>_. Inr topologyServerFirst) [] = Inr out \<and>
     map node_id (devicePlacements out) = [Some ''srv1'', Some ''r1''] \<and>
     map node_position (devicePlacements out) = [(150, 200), (400, 200)]"
proof -
  define r where "r = parseNetworkConfig (\<lambda>_. Inr topologyServerFirst) []"
  define out where "out = \<lparr>out_nodes = resultNodes r, out_edges = resultEdges r\<rparr>"
  define ss where "ss = optList (sites topologyServerFirst)"
  have ev: "parseNetworkConfig (\<lambda>_. Inr topologyServerFirst) [] = Inr out"
    by (simp add: out_def r_def eval_defs topologyServerFirst_def)
  have s: "sites topologyServerFirst = Some ss"
    by (simp add: ss_def optList_def topologyServerFirst_def)
  from C2_input_order[of "\<lambda>_. Inr topologyServerFirst" "[]" topologyServerFirst ss out,
      OF refl s ev]
  obtain base where
    pl: "devicePlacements out =
           concat (map (\<lambda>site. map (\<lambda>(k, device). deviceNode (base site) device k)
             (enumerate 0 (optList (devices site)))) ss)"
    and nd: "\<forall>b device k.
            node_id (deviceNode b device k) = device_id device \<and>
            node_position (deviceNode b device k) =
              (fst b + int (k mod 3) * 250 + 150, snd b + 100 + int (k div 3) * 250)"
    by blast
  have "map node_id (devicePlacements out) = [Some ''srv1'', Some ''r1'']"
    unfolding pl by (simp add: nd ss_def optList_def topologyServerFirst_def plainDevice_def)
  moreover have "map node_position (devicePlacements out) = [(150, 200), (400, 200)]"
    by (simp add: out_def r_def eval_defs topologyServerFirst_def)
  ultimately show ?thesis using ev by (intro exI[of _ out]) simp
qed

subsection \<open>VPN connections\<close>

text \<open>
  Claim C6. For every entry of \<open>vpn_connections\<close>: when no site has the id
  \<open>to_site\<close>, or the site found has no device of type \<open>router\<close>, the loop body
  returns with the locals unchanged (no edge, and nothing thrown); otherwise it pushes one
  edge from the owning device to the first device of type \<open>router\<close> in the target site's
  device sequence. (A site found has \<open>devices\<close>: the first loop has read them.) A load
  whose sites all have \<open>id\<close> and \<open>devices\<close> returns normally whatever its VPN entries
  resolve to.
\<close>

theorem C6_vpn_resolution:
  "(find (\<lambda>s. site_id s = Some (to_site v)) allSites = None \<longrightarrow>
      processVpnConnection allSites site device v i st = Inr st) \<and>
   (\<forall>targetSite targetDevices.
      find (\<lambda>s. site_id s = Some (to_site v)) allSites = Some targetSite \<and>
      devices targetSite = Some targetDevices \<and>
      find (\<lambda>d. device_type d = Some ''router'') targetDevices = None \<longrightarrow>
      processVpnConnection allSites site device v i st = Inr st) \<and>
   (\<forall>targetSite targetDevices k.
      find (\<lambda>s. site_id s = Some (to_site v)) allSites = Some targetSite \<and>
      devices targetSite = Some targetDevices \<and> k < length targetDevices \<and>
      device_type (targetDevices ! k) = Some ''router'' \<and>
      (\<forall>j<k. device_type (targetDevices ! j) \<noteq> Some ''router'') \<longrightarrow>
      processVpnConnection allSites site device v i st =
        Inr (st\<lparr>edges := edges st
          @ [vpnEdge site device targetSite (targetDevices ! k) v i]\<rparr>) \<and>
      edge_source (vpnEdge site device targetSite (targetDevices ! k) v i) = device_id device \<and>
      edge_target (vpnEdge site device targetSite (targetDevices ! k) v i) =
        device_id (targetDevices ! k)) \<and>
   (\<forall>yaml_load yamlContent cfg ss.
      yaml_load yamlContent = Inr cfg \<and> sites cfg = Some ss \<and>
      (\<forall>s\<in>set ss. site_id s \<noteq> None \<and> devices s \<noteq> None) \<longrightarrow>
      (\<exists>out. parseNetworkConfig yaml_load yamlContent = Inr out \<and>
         out_edges out = concat (map (siteEdges ss) ss)))"
proof (intro conjI allI impI)
  assume "find (\<lambda>s. site_id s = Some (to_site v)) allSites = None"
  then show "processVpnConnection allSites site device v i st = Inr st"
    by (simp add: processVpnConnection_def)
next
  fix targetSite targetDevices
  assume "find (\<lambda>s. site_id s = Some (to_site v)) allSites = Some targetSite \<and>
      devices targetSite = Some targetDevices \<and>
      find (\<lambda>d. device_type d = Some ''router'') targetDevices = None"
  then show "processVpnConnection allSites site device v i st = Inr st"
    by (simp add: processVpnConnection_def)
next
  fix targetSite targetDevices k
  assume a: "find (\<lambda>s. site_id s = Some (to_site v)) allSites = Some targetSite \<and>
      devices targetSite = Some targetDevices \<and> k < length targetDevices \<and>
      device_type (targetDevices ! k) = Some ''router'' \<and>
      (\<forall>j<k. device_type (targetDevices ! j) \<noteq> Some ''router'')"
  then have "find (\<lambda>d. device_type d = Some ''router'') targetDevices = Some (targetDevices ! k)"
    by (auto simp: find_Some_iff)
  with a show "processVpnConnection allSites site device v i st =
        Inr (st\<lparr>edges := edges st
          @ [vpnEdge site device targetSite (targetDevices ! k) v i]\<rparr>)"
    by (simp add: processVpnConnection_def pushEdge_def)
next
  fix targetSite :: Site and targetDevices :: "Device list" and k
  show "edge_source (vpnEdge site device targetSite (targetDevices ! k) v i) = device_id device"
    by (simp add: vpnEdge_def Let_def)
next
  fix targetSite :: Site and targetDevices :: "Device list" and k
  show "edge_target (vpnEdge site device targetSite (targetDevices ! k) v i) =
        device_id (targetDevices ! k)"
    by (simp add: vpnEdge_def Let_def)
next
  fix yaml_load :: "string \<Rightarrow> error + NetworkConfig" and yamlContent cfg ss
  assume "yaml_load yamlContent = Inr cfg \<and> sites cfg = Some ss \<and>
      (\<forall>s\<in>set ss. site_id s \<noteq> None \<and> devices s \<noteq> None)"
  with parse_ok[of yaml_load yamlContent cfg ss]
  show "\<exists>out. parseNetworkConfig yaml_load yamlContent = Inr out \<and>
         out_edges out = concat (map (siteEdges ss) ss)"
    by blast
qed

text \<open>
  The theorem at the scenario: the VPN entry of the branch router resolves to the router
  of \<open>hq\<close>; an entry for a site that does not exist changes nothing.
\<close>

theorem C6_vpn_resolution_witness:
  "processVpnConnection (optList (sites topologyScenario))
        (optList (sites topologyScenario) ! 1)
        (plainDevice ''br-r1'' ''router'') \<lparr>to_site = ''hq'', vpn_label = None\<rparr> 0 emptyLocals
     = Inr (emptyLocals\<lparr>edges :=
         [\<lparr>edge_id = ''vpn-br-r1-hq-r1-0'', edge_source = Some ''br-r1'',
           edge_target = Some ''hq-r1'', edge_type = VpnEdge, edge_label = Some ''VPN'',
           edge_isCrossSite = Some True, edge_index = 0\<rparr>]\<rparr>) \<and>
   processVpnConnection (optList (sites topologyScenario))
        (optList (sites topologyScenario) ! 1)
        (plainDevice ''br-r1'' ''router'') \<lparr>to_site = ''nowhere'', vpn_label = None\<rparr> 1 emptyLocals
     = Inr emptyLocals"
proof -
  let ?ss = "optList (sites topologyScenario)"
  let ?hq = "?ss ! 0"
  let ?d = "plainDevice ''br-r1'' ''router''"
  have f: "find (\<lambda>s. site_id s = Some (to_site \<lparr>to_site = ''hq'', vpn_label = None\<rparr>)) ?ss = Some ?hq"
    by (simp add: optList_def topologyScenario_def)
  have g: "find (\<lambda>s. site_id s = Some (to_site \<lparr>to_site = ''nowhere'', vpn_label = None\<rparr>)) ?ss = None"
    by (simp add: optList_def topologyScenario_def)
  have ds: "devices ?hq = Some (optList (devices ?hq))"
    by (simp add: optList_def topologyScenario_def)
  have k: "0 < length (optList (devices ?hq))"
    "device_type (optList (devices ?hq) ! 0) = Some ''router''"
    "\<forall>j<(0::nat). device_type (optList (devices ?hq) ! j) \<noteq> Some ''router''"
    by (simp_all add: optList_def topologyScenario_def plainDevice_def)
  from C6_vpn_resolution[of "\<lparr>to_site = ''hq'', vpn_label = None\<rparr>" ?ss "?ss ! 1" ?d 0 emptyLocals]
    f ds k
  have "processVpnConnection ?ss (?ss ! 1) ?d \<lparr>to_site = ''hq'', vpn_label = None\<rparr> 0 emptyLocals =
      Inr (emptyLocals\<lparr>edges := edges emptyLocals
        @ [vpnEdge (?ss ! 1) ?d ?hq (optList (devices ?hq) ! 0)
             \<lparr>to_site = ''hq'', vpn_label = None\<rparr> 0]\<rparr>)"
    by blast
  then have one: "processVpnConnection ?ss (?ss ! 1) ?d \<lparr>to_site = ''hq'', vpn_label = None\<rparr> 0 emptyLocals
     = Inr (emptyLocals\<lparr>edges :=
         [\<lparr>edge_id = ''vpn-br-r1-hq-r1-0'', edge_source = Some ''br-r1'',
           edge_target = Some ''hq-r1'', edge_type = VpnEdge, edge_label = Some ''VPN'',
           edge_isCrossSite = Some True, edge_index = 0\<rparr>]\<rparr>)"
    by (simp add: emptyLocals_def vpnEdge_def Let_def optList_def topologyScenario_def
        plainDevice_def str_def orElse_def numStr.simps)
  from C6_vpn_resolution[of "\<lparr>to_site = ''nowhere'', vpn_label = None\<rparr>" ?ss "?ss ! 1" ?d 1 emptyLocals] g
  have two: "processVpnConnection ?ss (?ss ! 1) ?d \<lparr>to_site = ''nowhere'', vpn_label = None\<rparr> 1 emptyLocals
     = Inr emptyLocals"
    by blast
  from one two show ?thesis by blast
qed

text \<open>
  Claim C10, as stated: a VPN entry to the device's own site is never dropped and
  resolves to the first router of that same site. The loader refutes it twice. In
  \<open>topologyFirewallOnly\<close> the own site has no router and the entry yields no edge. In
  \<open>topologyDuplicateSites\<close> the entry of \<open>rb\<close>, in the second site named \<open>hq\<close>, resolves
  to \<open>ra\<close>, the router of the first site of that id, and is marked as not cross-site.
\<close>

theorem C10_own_site_counterexample:
  "resultEdges (parseNetworkConfig (\<lambda>_. Inr topologyFirewallOnly) []) = [] \<and>
   map (\<lambda>e. (edge_source e, edge_target e, edge_isCrossSite e))
     (resultEdges (parseNetworkConfig (\<lambda>_. Inr topologyDuplicateSites) [])) =
     [(Some ''rb'', Some ''ra'', Some False)]"
  by (simp add: eval_defs topologyDuplicateSites_def topologyFirewallOnly_def)

text \<open>
  Claim C10, amended. In a document whose site ids are pairwise distinct, an entry of
  \<open>vpn_connections\<close> whose \<open>to_site\<close> is the id of the device's own site is handled as any
  other entry. When that site has a device of type \<open>router\<close>, the entry pushes one VPN
  edge to the first router of that same site, marked as not cross-site, and when the
  owning device is that router the source and the target of the edge are the same
  device id. When the site has no router, the entry is dropped and nothing is thrown.
\<close>

theorem C10_vpn_to_own_site:
  assumes "distinct (map site_id allSites)" and "site \<in> set allSites"
    and "to_site v = siteId" and "site_id site = Some siteId"
    and "devices site = Some ds"
  shows "(find (\<lambda>d. device_type d = Some ''router'') ds = None \<longrightarrow>
            processVpnConnection allSites site device v i st = Inr st) \<and>
         (\<forall>router. find (\<lambda>d. device_type d = Some ''router'') ds = Some router \<longrightarrow>
            processVpnConnection allSites site device v i st =
              Inr (st\<lparr>edges := edges st @ [vpnEdge site device site router v i]\<rparr>) \<and>
            edge_type (vpnEdge site device site router v i) = VpnEdge \<and>
            edge_isCrossSite (vpnEdge site device site router v i) = Some False \<and>
            edge_source (vpnEdge site device site router v i) = device_id device \<and>
            edge_target (vpnEdge site device site router v i) = device_id router \<and>
            (device = router \<longrightarrow>
               edge_source (vpnEdge site device site router v i) =
               edge_target (vpnEdge site device site router v i)))"
proof -
  have "find (\<lambda>s. site_id s = site_id site) allSites = Some site"
    using distinct_map_find[OF assms(1,2)] .
  then have f: "find (\<lambda>s. site_id s = Some (to_site v)) allSites = Some site"
    using assms(3,4) by simp
  have none: "processVpnConnection allSites site device v i st = Inr st"
    if "find (\<lambda>d. device_type d = Some ''router'') ds = None"
    using f assms(5) that by (simp add: processVpnConnection_def)
  have some: "processVpnConnection allSites site device v i st =
              Inr (st\<lparr>edges := edges st @ [vpnEdge site device site router v i]\<rparr>)"
    if "find (\<lambda>d. device_type d = Some ''router'') ds = Some router" for router
    using f assms(5) that by (simp add: processVpnConnection_def pushEdge_def)
  from none some show ?thesis by (simp add: vpnEdge_def Let_def)
qed

text \<open>
  The theorem at \<open>topologySelfVpn\<close>, where the load returns the self-loop
  \<open>vpn-r1-r1-0\<close>, and at \<open>topologyFirewallOnly\<close>, where the entry changes nothing.
\<close>

theorem C10_vpn_to_own_site_witness:
  "processVpnConnection (optList (sites topologySelfVpn))
       (optList (sites topologySelfVpn) ! 0)
       (optList (devices (optList (sites topologySelfVpn) ! 0)) ! 0)
       \<lparr>to_site = ''hq'', vpn_label = None\<rparr> 0 emptyLocals =
     Inr (emptyLocals\<lparr>edges :=
       [\<lparr>edge_id = ''vpn-r1-r1-0'', edge_source = Some ''r1'', edge_target = Some ''r1'',
         edge_type = VpnEdge, edge_label = Some ''VPN'', edge_isCrossSite = Some False,
         edge_index = 0\<rparr>]\<rparr>) \<and>
   resultEdges (parseNetworkConfig (\<lambda>_. Inr topologySelfVpn) []) =
       [\<lparr>edge_id = ''vpn-r1-r1-0'', edge_source = Some ''r1'', edge_target = Some ''r1'',
         edge_type = VpnEdge, edge_label = Some ''VPN'', edge_isCrossSite = Some False,
         edge_index = 0\<rparr>] \<and>
   processVpnConnection (optList (sites topologyFirewallOnly))
       (optList (sites topologyFirewallOnly) ! 0)
       (optList (devices (optList (sites topologyFirewallOnly) ! 0)) ! 0)
       \<lparr>to_site = ''hq'', vpn_label = None\<rparr> 0 emptyLocals = Inr emptyLocals"
proof -
  let ?ss = "optList (sites topologySelfVpn)"
  let ?site = "?ss ! 0"
  let ?r = "optList (devices ?site) ! 0"
  let ?v = "\<lparr>to_site = ''hq'', vpn_label = None\<rparr>"
  have h: "distinct (map site_id ?ss)" "?site \<in> set ?ss" "to_site ?v = ''hq''"
    "site_id ?site = Some ''hq''" "devices ?site = Some (optList (devices ?site))"
    by (simp_all add: optList_def topologySelfVpn_def plainDevice_def)
  have hr: "find (\<lambda>d. device_type d = Some ''router'') (optList (devices ?site)) = Some ?r"
    by (simp add: optList_def topologySelfVpn_def plainDevice_def)
  from C10_vpn_to_own_site[OF h, of ?r 0 emptyLocals] hr
  have e: "processVpnConnection ?ss ?site ?r ?v 0 emptyLocals =
      Inr (emptyLocals\<lparr>edges := edges emptyLocals @ [vpnEdge ?site ?r ?site ?r ?v 0]\<rparr>)"
    by blast
  have m: "vpnEdge ?site ?r ?site ?r ?v 0 =
      \<lparr>edge_id = ''vpn-r1-r1-0'', edge_source = Some ''r1'', edge_target = Some ''r1'',
         edge_type = VpnEdge, edge_label = Some ''VPN'', edge_isCrossSite = Some False,
         edge_index = 0\<rparr>"
    by (simp add: eval_defs topologySelfVpn_def)
  have r: "resultEdges (parseNetworkConfig (\<lambda>_. Inr topologySelfVpn) []) =
      [\<lparr>edge_id = ''vpn-r1-r1-0'', edge_source = Some ''r1'', edge_target = Some ''r1'',
         edge_type = VpnEdge, edge_label = Some ''VPN'', edge_isCrossSite = Some False,
         edge_index = 0\<rparr>]"
    by (simp add: eval_defs topologySelfVpn_def)
  let ?fs = "optList (sites topologyFirewallOnly)"
  let ?fsite = "?fs ! 0"
  let ?fw = "optList (devices ?fsite) ! 0"
  have k: "distinct (map site_id ?fs)" "?fsite \<in> set ?fs" "to_site ?v = ''hq''"
    "site_id ?fsite = Some ''hq''" "devices ?fsite = Some (optList (devices ?fsite))"
    by (simp_all add: optList_def topologyFirewallOnly_def plainDevice_def)
  have kr: "find (\<lambda>d. device_type d = Some ''router'') (optList (devices ?fsite)) = None"
    by (simp add: optList_def topologyFirewallOnly_def plainDevice_def)
  from C10_vpn_to_own_site[OF k, of ?fw 0 emptyLocals] kr
  have n: "processVpnConnection ?fs ?fsite ?fw ?v 0 emptyLocals = Inr emptyLocals"
    by blast
  from e m r n show ?thesis by (simp add: emptyLocals_def)
qed

subsection \<open>Failures of the load\<close>

text \<open>
  Claim C7, as stated: a document in which a required field is missing (here the \<open>id\<close>
  and the \<open>type\<close> of a device) is rejected with a schema error. The loader refutes it:
  \<open>topologyUntyped\<close> is processed, and its device gets a node without id and type.
\<close>

theorem C7_missing_type_counterexample:
  "parseNetworkConfig (\<lambda>_. Inr topologyUntyped) [] =
     Inr \<lparr>out_nodes =
            [\<lparr>node_id = Some ''site-hq-bg'', node_position = (- 50, - 50),
              node_label = Some [], node_deviceType = None, node_width = Some 600,
              node_height = Some 550,
              node_backgroundColor = Some ''rgba(242, 238, 252, 0.7)'', node_type = Group\<rparr>,
             \<lparr>node_id = None, node_position = (150, 200), node_label = None,
              node_deviceType = None, node_width = None, node_height = None,
              node_backgroundColor = None, node_type = NetworkNode\<rparr>,
             \<lparr>node_id = Some ''site-hq-header'', node_position = (- 20, - 80),
              node_label = None, node_deviceType = None, node_width = Some 260,
              node_height = Some 50, node_backgroundColor = Some ''#6d28d9'',
              node_type = SiteHeader\<rparr>],
          out_edges = []\<rparr>"
  by (simp add: eval_defs topologyUntyped_def)

text \<open>
  Claim C7, amended. The load fails with the exception of the YAML library when the text
  is not well-formed. There is no schema check and no schema error. Among the documents
  of the declared shape, those a \<open>NetworkConfig\<close> describes (every field that is present
  has the type the interfaces of the loader declare), the load fails, with a
  \<open>TypeError\<close> of the runtime, when \<open>sites\<close> is missing or a site lacks \<open>id\<close> or
  \<open>devices\<close>, and the others are processed, also when a device lacks \<open>id\<close> or \<open>type\<close>.
  Documents with a field of another type than declared are outside the statement.
\<close>

theorem C7_load_failures:
  "(yaml_load yamlContent = Inl e \<longrightarrow> parseNetworkConfig yaml_load yamlContent = Inl e) \<and>
   (yaml_load yamlContent = Inr cfg \<longrightarrow>
      (if sites cfg = None \<or>
          (\<exists>s\<in>set (optList (sites cfg)). site_id s = None \<or> devices s = None)
       then parseNetworkConfig yaml_load yamlContent = Inl TypeError
       else \<exists>out. parseNetworkConfig yaml_load yamlContent = Inr out))"
proof (intro conjI impI)
  assume "yaml_load yamlContent = Inl e"
  then show "parseNetworkConfig yaml_load yamlContent = Inl e"
    by (rule parse_yaml_error)
next
  assume y: "yaml_load yamlContent = Inr cfg"
  show "if sites cfg = None \<or>
          (\<exists>s\<in>set (optList (sites cfg)). site_id s = None \<or> devices s = None)
       then parseNetworkConfig yaml_load yamlContent = Inl TypeError
       else \<exists>out. parseNetworkConfig yaml_load yamlContent = Inr out"
  proof (cases "sites cfg")
    case None
    with parse_no_sites[of yaml_load yamlContent cfg] y show ?thesis by simp
  next
    case (Some ss)
    show ?thesis
    proof (cases "\<exists>s\<in>set ss. site_id s = None \<or> devices s = None")
      case True
      with parse_missing[of yaml_load yamlContent cfg ss] y Some show ?thesis
        by (simp add: optList_def)
    next
      case False
      then have "\<forall>s\<in>set ss. site_id s \<noteq> None \<and> devices s \<noteq> None" by simp
      with parse_ok[of yaml_load yamlContent cfg ss] y Some
      obtain out where "parseNetworkConfig yaml_load yamlContent = Inr out" by blast
      with False Some show ?thesis by (simp add: optList_def)
    qed
  qed
qed

text \<open>
  The theorem at four documents: a text the library rejects, a document without
  \<open>sites\<close>, a site without \<open>devices\<close>, and a device without \<open>id\<close> and \<open>type\<close>.
\<close>

theorem C7_load_failures_witness:
  "parseNetworkConfig (\<lambda>_. Inl YAMLException) [] = Inl YAMLException \<and>
   parseNetworkConfig (\<lambda>_. Inr \<lparr>sites = None\<rparr>) [] = Inl TypeError \<and>
   parseNetworkConfig (\<lambda>_. Inr topologyNoDevices) [] = Inl TypeError \<and>
   (\<exists>out. parseNetworkConfig (\<lambda>_. Inr topologyUntyped) [] = Inr out)"
proof -
  have a: "parseNetworkConfig (\<lambda>_. Inl YAMLException) [] = Inl YAMLException"
    using C7_load_failures[of "\<lambda>_. Inl YAMLException" "[]" YAMLException] by simp
  have b: "parseNetworkConfig (\<lambda>_. Inr \<lparr>sites = None\<rparr>) [] = Inl TypeError"
    using C7_load_failures[of "\<lambda>_. Inr \<lparr>sites = None\<rparr>" "[]" _ "\<lparr>sites = None\<rparr>"] by simp
  have c: "parseNetworkConfig (\<lambda>_. Inr topologyNoDevices) [] = Inl TypeError"
    using C7_load_failures[of "\<lambda>_. Inr topologyNoDevices" "[]" _ topologyNoDevices]
    by (simp add: topologyNoDevices_def optList_def)
  have d: "\<exists>out. parseNetworkConfig (\<lambda>_. Inr topologyUntyped) [] = Inr out"
    using C7_load_failures[of "\<lambda>_. Inr topologyUntyped" "[]" _ topologyUntyped]
    by (simp add: topologyUntyped_def optList_def)
  from a b c d show ?thesis by blast
qed

subsection \<open>Placements\<close>

text \<open>
  Claim C8. For every document whose device ids are pairwise distinct and whose load
  returns: every device id is the id of exactly one device placement, and two devices at
  different indices of the same site are placed in different (row, column) cells of the
  site's grid, so that their positions are at least 250 apart in x or in y.
\<close>

theorem C8_one_cell_per_device:
  assumes "yaml_load yamlContent = Inr cfg" and "sites cfg = Some ss"
    and "parseNetworkConfig yaml_load yamlContent = Inr out"
    and "distinct (map device_id (allDevices ss))"
  shows "(\<forall>d\<in>set (allDevices ss).
            length (filter (\<lambda>n. node_id n = device_id d) (devicePlacements out)) = 1) \<and>
         (\<forall>site\<in>set ss. \<exists>base. \<forall>ds i j.
            devices site = Some ds \<and> i < length ds \<and> j < length ds \<and> i \<noteq> j \<longrightarrow>
            (\<exists>p q. placementOf out (ds ! i) = Some p \<and> placementOf out (ds ! j) = Some q \<and>
               node_position p = devicePosition base i \<and>
               node_position q = devicePosition base j \<and>
               (i div 3, i mod 3) \<noteq> (j div 3, j mod 3) \<and>
               (250 \<le> \<bar>fst (node_position p) - fst (node_position q)\<bar> \<or>
                250 \<le> \<bar>snd (node_position p) - snd (node_position q)\<bar>)))"
proof -
  have complete: "\<forall>s\<in>set ss. site_id s \<noteq> None \<and> devices s \<noteq> None"
    using parse_Inr_complete[of yaml_load yamlContent cfg ss out] assms(1,2,3) by blast
  from parse_ok[of yaml_load yamlContent cfg ss] assms(1,2,3) complete obtain pos where
    pl: "devicePlacements out = concat (map (\<lambda>s. siteDeviceNodes (pos (siteKey s)) s) ss)"
    by (auto simp: devicePlacements_def)
  have ids: "map node_id (devicePlacements out) = map device_id (allDevices ss)"
    unfolding pl by (rule placements_ids)
  with assms(4) have dist: "distinct (map node_id (devicePlacements out))" by simp
  have one: "length (filter (\<lambda>n. node_id n = device_id d) (devicePlacements out)) = 1"
    if "d \<in> set (allDevices ss)" for d
  proof -
    from that have "device_id d \<in> set (map node_id (devicePlacements out))"
      unfolding ids by simp
    then obtain n where n: "n \<in> set (devicePlacements out)" "node_id n = device_id d"
      by auto
    from distinct_map_filter_one[OF dist n(1)] show ?thesis by (simp add: n(2))
  qed
  have placed: "placementOf out (ds ! i) = Some (deviceNode (pos (siteKey site)) (ds ! i) i)"
    if "site \<in> set ss" "devices site = Some ds" "i < length ds" for site ds i
  proof -
    have "deviceNode (pos (siteKey site)) (ds ! i) i \<in> set (siteDeviceNodes (pos (siteKey site)) site)"
      using siteDeviceNodes_nth[OF that(2,3)] siteDeviceNodes_length[OF that(2)] that(3)
      by (metis nth_mem)
    with that(1) have mem: "deviceNode (pos (siteKey site)) (ds ! i) i \<in> set (devicePlacements out)"
      unfolding pl by auto
    have "node_id (deviceNode (pos (siteKey site)) (ds ! i) i) = device_id (ds ! i)"
      by (simp add: deviceNode_def)
    with distinct_map_find[OF dist mem] show ?thesis
      by (simp add: placementOf_def)
  qed
  have two: "\<exists>base. \<forall>ds i j.
            devices site = Some ds \<and> i < length ds \<and> j < length ds \<and> i \<noteq> j \<longrightarrow>
            (\<exists>p q. placementOf out (ds ! i) = Some p \<and> placementOf out (ds ! j) = Some q \<and>
               node_position p = devicePosition base i \<and>
               node_position q = devicePosition base j \<and>
               (i div 3, i mod 3) \<noteq> (j div 3, j mod 3) \<and>
               (250 \<le> \<bar>fst (node_position p) - fst (node_position q)\<bar> \<or>
                250 \<le> \<bar>snd (node_position p) - snd (node_position q)\<bar>))"
    if site: "site \<in> set ss" for site
  proof (intro exI[of _ "pos (siteKey site)"] allI impI)
    fix ds i j
    assume a: "devices site = Some ds \<and> i < length ds \<and> j < length ds \<and> i \<noteq> j"
    let ?p = "deviceNode (pos (siteKey site)) (ds ! i) i"
    let ?q = "deviceNode (pos (siteKey site)) (ds ! j) j"
    have "placementOf out (ds ! i) = Some ?p" "placementOf out (ds ! j) = Some ?q"
      using placed[OF site] a by simp_all
    moreover have "node_position ?p = devicePosition (pos (siteKey site)) i"
      "node_position ?q = devicePosition (pos (siteKey site)) j"
      by (simp_all add: deviceNode_def)
    moreover note devicePosition_apart[of i j "pos (siteKey site)"]
    ultimately show "\<exists>p q. placementOf out (ds ! i) = Some p \<and> placementOf out (ds ! j) = Some q \<and>
               node_position p = devicePosition (pos (siteKey site)) i \<and>
               node_position q = devicePosition (pos (siteKey site)) j \<and>
               (i div 3, i mod 3) \<noteq> (j div 3, j mod 3) \<and>
               (250 \<le> \<bar>fst (node_position p) - fst (node_position q)\<bar> \<or>
                250 \<le> \<bar>snd (node_position p) - snd (node_position q)\<bar>)"
      using a by auto
  qed
  from one two show ?thesis by blast
qed

text \<open>
  The theorem at the scenario.
\<close>

theorem C8_one_cell_per_device_witness:
  "\<exists>out p q. parseNetworkConfig (\<lambda>_. Inr topologyScenario) [] = Inr out \<and>
     length (filter (\<lambda>n. node_id n = Some ''hq-sw1'') (devicePlacements out)) = 1 \<and>
     placementOf out (plainDevice ''hq-sw1'' ''switch'') = Some p \<and> node_position p = (400, 200)"
proof -
  define r where "r = parseNetworkConfig (\<lambda>_. Inr topologyScenario) []"
  define out where "out = \<lparr>out_nodes = resultNodes r, out_edges = resultEdges r\<rparr>"
  define ss where "ss = optList (sites topologyScenario)"
  have ev: "parseNetworkConfig (\<lambda>_. Inr topologyScenario) [] = Inr out"
    by (simp add: out_def r_def eval_defs topologyScenario_def)
  have s: "sites topologyScenario = Some ss"
    by (simp add: ss_def optList_def topologyScenario_def)
  have d: "distinct (map device_id (allDevices ss))"
    by (simp add: ss_def eval_defs topologyScenario_def)
  have hq: "ss ! 0 \<in> set ss" by (simp add: ss_def eval_defs topologyScenario_def)
  from C8_one_cell_per_device[of "\<lambda>_. Inr topologyScenario" "[]" topologyScenario ss out, OF refl s ev d]
  have one: "\<forall>d\<in>set (allDevices ss).
            length (filter (\<lambda>n. node_id n = device_id d) (devicePlacements out)) = 1"
    by blast
  have "plainDevice ''hq-sw1'' ''switch'' \<in> set (allDevices ss)"
    by (simp add: ss_def eval_defs topologyScenario_def)
  with one have "length (filter (\<lambda>n. node_id n = device_id (plainDevice ''hq-sw1'' ''switch'')) (devicePlacements out)) = 1"
    by blast
  then have c: "length (filter (\<lambda>n. node_id n = Some ''hq-sw1'') (devicePlacements out)) = 1"
    by (simp add: plainDevice_def)
  have "\<exists>p. placementOf out (plainDevice ''hq-sw1'' ''switch'') = Some p \<and> node_position p = (400, 200)"
    by (simp add: out_def r_def eval_defs topologyScenario_def)
  with ev c show ?thesis by blast
qed

text \<open>
  Claim C9, as stated: for every topology the sites get their base x by ordinal position
  and the boxes of two distinct sites have non-overlapping x-ranges. The loader refutes
  it for two sites with the same id: \<open>sitePositions\<close> is keyed by the site id, both sites
  read the position written last, and both boxes start at x = 1050, the first site's
  instead of at -50.
\<close>

theorem C9_duplicate_site_ids_counterexample:
  "map (\<lambda>n. (node_id n, node_position n, node_width n))
     (filter isBackground
        (resultNodes (parseNetworkConfig (\<lambda>_. Inr topologyDuplicateSites) []))) =
     [(Some ''site-hq-bg'', (1050, - 50), Some 800),
      (Some ''site-hq-bg'', (1050, - 50), Some 600)]"
  by (simp add: eval_defs topologyDuplicateSites_def)

text \<open>
  Claim C9, amended. For every document whose site ids are pairwise distinct and whose
  load returns: the site at index i has the base position (1100 i, 100), its devices are
  placed from that base and its background box starts at x = 1100 i - 50; the box of a
  site ends to the left of the start of the box of every later site, whatever the number
  and the arrangement of the devices.
\<close>

theorem C9_site_pitch:
  assumes "yaml_load yamlContent = Inr cfg" and "sites cfg = Some ss"
    and "parseNetworkConfig yaml_load yamlContent = Inr out"
    and "distinct (map site_id ss)"
  shows "map node_position (rev (siteBackgrounds out)) =
           map (\<lambda>i. (int i * siteSpacing - 50, - 50)) [0..<length ss] \<and>
         devicePlacements out =
           concat (map (\<lambda>(i, site). siteDeviceNodes (int i * siteSpacing, 100) site)
             (enumerate 0 ss)) \<and>
         (\<forall>i j. i < j \<and> j < length ss \<longrightarrow>
            (\<exists>w. node_width (rev (siteBackgrounds out) ! i) = Some w \<and>
               fst (node_position (rev (siteBackgrounds out) ! i)) + w
                 < fst (node_position (rev (siteBackgrounds out) ! j))))"
proof -
  have complete: "\<forall>s\<in>set ss. site_id s \<noteq> None \<and> devices s \<noteq> None"
    using parse_Inr_complete[of yaml_load yamlContent cfg ss out] assms(1,2,3) by blast
  then have keys: "distinct (map siteKey ss)"
    using distinct_siteKeys[OF assms(4)] by simp
  from parse_ok[of yaml_load yamlContent cfg ss] assms(1,2,3) complete keys obtain pos where
    pl: "devicePlacements out = concat (map (\<lambda>s. siteDeviceNodes (pos (siteKey s)) s) ss)"
    and pos: "\<forall>j<length ss. pos (siteKey (ss ! j)) = (int j * siteSpacing, 100)"
    and bg: "map node_position (siteBackgrounds out) =
          rev (map (\<lambda>s. (fst (pos (siteKey s)) - 50, snd (pos (siteKey s)) - 150)) ss)"
    and wd: "\<forall>n\<in>set (siteBackgrounds out). \<exists>w. node_width n = Some w \<and> 600 \<le> w \<and> w \<le> 1000"
    by (auto simp: devicePlacements_def siteBackgrounds_def)
  let ?bs = "rev (siteBackgrounds out)"
  have "map node_position ?bs =
      map (\<lambda>s. (fst (pos (siteKey s)) - 50, snd (pos (siteKey s)) - 150)) ss"
    using bg by (simp add: rev_map[symmetric])
  also have "\<dots> = map (\<lambda>i. (int i * siteSpacing - 50, - 50)) [0..<length ss]"
    by (rule map_by_index) (simp add: pos)
  finally have one: "map node_position ?bs =
      map (\<lambda>i. (int i * siteSpacing - 50, - 50)) [0..<length ss]" .
  have "map (\<lambda>s. siteDeviceNodes (pos (siteKey s)) s) ss =
      map (\<lambda>(i, site). siteDeviceNodes (int i * siteSpacing, 100) site) (enumerate 0 ss)"
    by (rule map_by_enumerate) (simp add: pos)
  with pl have two: "devicePlacements out =
      concat (map (\<lambda>(i, site). siteDeviceNodes (int i * siteSpacing, 100) site)
        (enumerate 0 ss))"
    by simp
  have len: "length ?bs = length ss"
    using one by (metis length_map length_upt minus_nat.diff_0)
  have three: "\<exists>w. node_width (?bs ! i) = Some w \<and>
      fst (node_position (?bs ! i)) + w < fst (node_position (?bs ! j))"
    if ij: "i < j \<and> j < length ss" for i j
  proof -
    from ij len have i: "i < length ?bs" and j: "j < length ?bs" by simp_all
    from i have "?bs ! i \<in> set (siteBackgrounds out)"
      by (metis nth_mem set_rev)
    with wd obtain w where w: "node_width (?bs ! i) = Some w" "w \<le> 1000" by blast
    have "node_position (?bs ! i) = (int i * siteSpacing - 50, - 50)"
      using one i len by (metis (no_types, lifting) add_0 nth_map nth_upt length_map)
    moreover have "node_position (?bs ! j) = (int j * siteSpacing - 50, - 50)"
      using one j len by (metis (no_types, lifting) add_0 nth_map nth_upt length_map)
    moreover have "int i + 1 \<le> int j" using ij by simp
    then have "(int i + 1) * 1100 \<le> int j * 1100" by simp
    ultimately have "fst (node_position (?bs ! i)) + w < fst (node_position (?bs ! j))"
      using w(2) by (simp add: siteSpacing_def algebra_simps)
    with w(1) show ?thesis by blast
  qed
  from one two three show ?thesis by blast
qed

text \<open>
  The theorem at the scenario: the boxes start at -50 and 1050 and are 750 and 600
  wide.
\<close>

theorem C9_site_pitch_witness:
  "\<exists>out. parseNetworkConfig (\<lambda>_. Inr topologyScenario) [] = Inr out \<and>
     map node_position (rev (siteBackgrounds out)) = [(- 50, - 50), (1050, - 50)] \<and>
     map node_width (rev (siteBackgrounds out)) = [Some 750, Some 600]"
proof -
  define r where "r = parseNetworkConfig (\<lambda>_. Inr topologyScenario) []"
  define out where "out = \<lparr>out_nodes = resultNodes r, out_edges = resultEdges r\<rparr>"
  define ss where "ss = optList (sites topologyScenario)"
  have ev: "parseNetworkConfig (\<lambda>_. Inr topologyScenario) [] = Inr out"
    by (simp add: out_def r_def eval_defs topologyScenario_def)
  have s: "sites topologyScenario = Some ss"
    by (simp add: ss_def optList_def topologyScenario_def)
  have d: "distinct (map site_id ss)"
    by (simp add: ss_def optList_def topologyScenario_def)
  have l: "[0..<length ss] = [0, 1]"
    by (simp add: ss_def optList_def topologyScenario_def upt_rec)
  from C9_site_pitch[of "\<lambda>_. Inr topologyScenario" "[]" topologyScenario ss out, OF refl s ev d]
  have "map node_position (rev (siteBackgrounds out)) =
           map (\<lambda>i. (int i * siteSpacing - 50, - 50)) [0..<length ss]"
    by blast
  then have p: "map node_position (rev (siteBackgrounds out)) = [(- 50, - 50), (1050, - 50)]"
    by (simp add: l siteSpacing_def)
  have w: "map node_width (rev (siteBackgrounds out)) = [Some 750, Some 600]"
    by (simp add: out_def r_def eval_defs topologyScenario_def)
  from ev p w show ?thesis by (intro exI[of _ out]) simp
qed

end
